theory Spec2Isabelle
  imports Complex_Main "HOL-Library.AList" "HOL-Library.Multiset" "HOL-Library.Sublist"
    "HOL-Library.Product_Lexorder"
begin

section \<open>Values of the Python programs\<close>

text \<open>
  Both scripts work on the values that \<^verbatim>\<open>json.load\<close> and \<^verbatim>\<open>response.json()\<close> return:
  \<^verbatim>\<open>None\<close>, booleans, numbers, strings, lists and dictionaries with string keys.
  Numbers are rationals: Python compares an \<^verbatim>\<open>int\<close> with a \<^verbatim>\<open>float\<close> by their exact
  values, so \<^verbatim>\<open>1 == 1.0\<close> and both are \<open>JNum 1\<close> (NaN and the infinities, which
  JSON proper cannot write, are left out). A dictionary is an association list in
  insertion order whose first entry for a key is the key's value. A string is a
  \<open>string\<close>, one \<open>char\<close> per character: the characters are the code points below
  256, and text with other characters is outside the model.
\<close>

datatype json =
    JNull
  | JBool bool
  | JNum rat
  | JStr string
  | JArr "json list"
  | JObj "(string \<times> json) list"

datatype py_error = AttributeError | TypeError | ValueError | KeyError

text \<open>\<^verbatim>\<open>d.get(k, dflt)\<close>: only a dictionary has the method.\<close>

definition get_or :: "(string \<times> json) list \<Rightarrow> string \<Rightarrow> json \<Rightarrow> json" where
  "get_or kv k dflt = (case map_of kv k of None \<Rightarrow> dflt | Some v \<Rightarrow> v)"

definition dict_get :: "json \<Rightarrow> string \<Rightarrow> json \<Rightarrow> py_error + json" where
  "dict_get d k dflt =
     (case d of JObj kv \<Rightarrow> Inr (get_or kv k dflt) | _ \<Rightarrow> Inl AttributeError)"

text \<open>\<^verbatim>\<open>d[k]\<close> with a string key: a missing key raises, and so does a value that is
  not a dictionary (a list or a string wants an integer index).\<close>

definition py_getitem :: "json \<Rightarrow> string \<Rightarrow> py_error + json" where
  "py_getitem d k =
     (case d of
        JObj kv \<Rightarrow> (case map_of kv k of None \<Rightarrow> Inl KeyError | Some v \<Rightarrow> Inr v)
      | _ \<Rightarrow> Inl TypeError)"

text \<open>Truth value of a value in a condition.\<close>

fun py_truthy :: "json \<Rightarrow> bool" where
  "py_truthy JNull = False"
| "py_truthy (JBool b) = b"
| "py_truthy (JNum q) = (q \<noteq> 0)"
| "py_truthy (JStr s) = (s \<noteq> [])"
| "py_truthy (JArr xs) = (xs \<noteq> [])"
| "py_truthy (JObj kv) = (kv \<noteq> [])"

text \<open>
  \<^verbatim>\<open>s.lower()\<close>; only a string has the method. Below 256 the capitals are the
  letters A to Z (65 to 90) and the accented capitals 192 to 222 without the
  multiplication sign 215; each has its small letter 32 places further.
\<close>

definition lower_char :: "char \<Rightarrow> char" where
  "lower_char c =
     (let n = (of_char c :: nat)
      in if (65 \<le> n \<and> n \<le> 90) \<or> (192 \<le> n \<and> n \<le> 222 \<and> n \<noteq> 215)
         then char_of (n + 32) else c)"

definition str_lower :: "string \<Rightarrow> string" where
  "str_lower s = map lower_char s"

definition py_lower :: "json \<Rightarrow> py_error + string" where
  "py_lower v = (case v of JStr s \<Rightarrow> Inr (str_lower s) | _ \<Rightarrow> Inl AttributeError)"

text \<open>
  \<^verbatim>\<open>int(v)\<close>. A string is stripped of surrounding white space (the characters 9 to
  13, the space 32, the next-line character 133 and the no-break space 160) and read as
  an optional sign followed by decimal digits, single underscores allowed between
  digits; anything else raises \<^verbatim>\<open>ValueError\<close>, and so does a literal of more digits
  than the interpreter's default limit of 4300. A number is truncated towards zero, a
  boolean is 0 or 1, and \<^verbatim>\<open>None\<close>, a list or a dictionary raise \<^verbatim>\<open>TypeError\<close>.
\<close>

definition is_space :: "char \<Rightarrow> bool" where
  "is_space c =
     (let n = (of_char c :: nat) in (9 \<le> n \<and> n \<le> 13) \<or> n = 32 \<or> n = 133 \<or> n = 160)"

definition str_strip :: "string \<Rightarrow> string" where
  "str_strip s = rev (dropWhile is_space (rev (dropWhile is_space s)))"

definition digit_val :: "char \<Rightarrow> nat option" where
  "digit_val c =
     (let n = (of_char c :: nat) in if 48 \<le> n \<and> n \<le> 57 then Some (n - 48) else None)"

fun parse_digits :: "nat \<Rightarrow> string \<Rightarrow> nat option" where
  "parse_digits acc [] = Some acc"
| "parse_digits acc [c] =
     (case digit_val c of None \<Rightarrow> None | Some v \<Rightarrow> Some (acc * 10 + v))"
| "parse_digits acc (c # d # ds) =
     (if c = CHR ''_''
      then (case digit_val d of None \<Rightarrow> None | Some v \<Rightarrow> parse_digits (acc * 10 + v) ds)
      else (case digit_val c of None \<Rightarrow> None | Some v \<Rightarrow> parse_digits (acc * 10 + v) (d # ds)))"

definition parse_unsigned :: "string \<Rightarrow> nat option" where
  "parse_unsigned s =
     (case s of
        [] \<Rightarrow> None
      | c # cs \<Rightarrow> (case digit_val c of None \<Rightarrow> None | Some v \<Rightarrow> parse_digits v cs))"

definition max_str_digits :: nat where
  "max_str_digits = 4300"

definition int_of_str :: "string \<Rightarrow> int option" where
  "int_of_str s =
     (if length (filter (\<lambda>c. digit_val c \<noteq> None) s) > max_str_digits then None
      else (case str_strip s of
              [] \<Rightarrow> None
            | c # cs \<Rightarrow>
                if c = CHR ''-'' then map_option (\<lambda>n. - int n) (parse_unsigned cs)
                else if c = CHR ''+'' then map_option int (parse_unsigned cs)
                else map_option int (parse_unsigned (c # cs))))"

definition trunc_rat :: "rat \<Rightarrow> int" where
  "trunc_rat q = (if 0 \<le> q then \<lfloor>q\<rfloor> else \<lceil>q\<rceil>)"

definition py_int :: "json \<Rightarrow> py_error + int" where
  "py_int v =
     (case v of
        JStr s \<Rightarrow> (case int_of_str s of None \<Rightarrow> Inl ValueError | Some n \<Rightarrow> Inr n)
      | JNum q \<Rightarrow> Inr (trunc_rat q)
      | JBool b \<Rightarrow> Inr (if b then 1 else 0)
      | _ \<Rightarrow> Inl TypeError)"

text \<open>\<^verbatim>\<open>keyword in text\<close> on strings is the substring test, \<^const>\<open>sublist\<close>.\<close>

definition any_keyword_in :: "string list \<Rightarrow> string \<Rightarrow> bool" where
  "any_keyword_in keywords text = list_ex (\<lambda>keyword. sublist keyword text) keywords"

section \<open>The review classifier (detailed\_feature\_research.py)\<close>

text \<open>\<^verbatim>\<open>review.get(field, {}).get('label', dflt)\<close>\<close>

definition label_of :: "json \<Rightarrow> string \<Rightarrow> json \<Rightarrow> py_error + json" where
  "label_of review field dflt =
     (case dict_get review field (JObj []) of
        Inl e \<Rightarrow> Inl e
      | Inr v \<Rightarrow> dict_get v ''label'' dflt)"

definition review_content :: "json \<Rightarrow> py_error + string" where
  "review_content review =
     (case label_of review ''content'' (JStr []) of Inl e \<Rightarrow> Inl e | Inr l \<Rightarrow> py_lower l)"

definition review_title :: "json \<Rightarrow> py_error + string" where
  "review_title review =
     (case label_of review ''title'' (JStr []) of Inl e \<Rightarrow> Inl e | Inr l \<Rightarrow> py_lower l)"

definition review_rating :: "json \<Rightarrow> py_error + int" where
  "review_rating review =
     (case label_of review ''im:rating'' (JStr ''0'') of Inl e \<Rightarrow> Inl e | Inr l \<Rightarrow> py_int l)"

definition full_text :: "string \<Rightarrow> string \<Rightarrow> string" where
  "full_text title content = title @ '' '' @ content"

definition feature_keywords :: "string list" where
  "feature_keywords =
     [''wish'', ''need'', ''should'', ''add'', ''feature'', ''want'', ''would like'', ''missing'']"

definition positive_keywords :: "string list" where
  "positive_keywords =
     [''love'', ''great'', ''awesome'', ''best'', ''perfect'', ''amazing'', ''excellent'']"

record buckets =
  complaints :: "json list"
  features_requested :: "json list"
  positive_features :: "json list"

definition complaint_record :: "int \<Rightarrow> json \<Rightarrow> string \<Rightarrow> json" where
  "complaint_record rating title_label content =
     JObj [(''rating'', JNum (of_int rating)), (''title'', title_label),
           (''snippet'', JStr (take 200 content))]"

definition text_record :: "int \<Rightarrow> string \<Rightarrow> json" where
  "text_record rating content =
     JObj [(''rating'', JNum (of_int rating)), (''text'', JStr (take 200 content))]"

text \<open>
  One pass of the loop of \<^verbatim>\<open>analyze_reviews\<close>: the three fields are read in the order
  content, title, rating, the first failure ends the call, and then the review is
  appended to each bucket whose test it passes.
\<close>

definition analyze_review :: "buckets \<Rightarrow> json \<Rightarrow> py_error + buckets" where
  "analyze_review b review =
     (case review_content review of Inl e \<Rightarrow> Inl e | Inr content \<Rightarrow>
     (case review_title review of Inl e \<Rightarrow> Inl e | Inr title \<Rightarrow>
     (case review_rating review of Inl e \<Rightarrow> Inl e | Inr rating \<Rightarrow>
     (case label_of review ''title'' (JStr []) of Inl e \<Rightarrow> Inl e | Inr title_label \<Rightarrow>
        (let text = full_text title content;
             b1 = (if rating \<le> 3
                   then b\<lparr>complaints :=
                          complaints b @ [complaint_record rating title_label content]\<rparr>
                   else b);
             b2 = (if any_keyword_in feature_keywords text
                   then b1\<lparr>features_requested :=
                          features_requested b1 @ [text_record rating content]\<rparr>
                   else b1);
             b3 = (if rating \<ge> 4 \<and> any_keyword_in positive_keywords text
                   then b2\<lparr>positive_features :=
                          positive_features b2 @ [text_record rating content]\<rparr>
                   else b2)
         in Inr b3)))))"

fun analyze_loop :: "json list \<Rightarrow> buckets \<Rightarrow> py_error + buckets" where
  "analyze_loop [] b = Inr b"
| "analyze_loop (review # reviews) b =
     (case analyze_review b review of Inl e \<Rightarrow> Inl e | Inr b' \<Rightarrow> analyze_loop reviews b')"

definition analyze_reviews :: "json list \<Rightarrow> py_error + (json list \<times> json list \<times> json list)" where
  "analyze_reviews reviews =
     (case analyze_loop reviews \<lparr>complaints = [], features_requested = [], positive_features = []\<rparr> of
        Inl e \<Rightarrow> Inl e
      | Inr b \<Rightarrow> Inr (complaints b, features_requested b, positive_features b))"


section \<open>The network\<close>

text \<open>
  What one \<^verbatim>\<open>requests.get\<close> does is an input of the model: the call raises (no
  connection, time-out), or a response arrives with a status code and a body that
  \<^verbatim>\<open>response.json()\<close> either parses or rejects by raising. The lines a function
  prints are returned beside its result; the text of the exception in them is left out.
\<close>

datatype http_outcome = Transport_error | Response nat "json option"

definition search_app_store :: "(string \<Rightarrow> http_outcome) \<Rightarrow> string \<Rightarrow> json \<times> string list" where
  "search_app_store net query =
     (case net query of
        Transport_error \<Rightarrow> (JNull, [''App Store search error''])
      | Response status_code body \<Rightarrow>
          if status_code = 200
          then (case body of
                  None \<Rightarrow> (JNull, [''App Store search error''])
                | Some parsed \<Rightarrow> (parsed, []))
          else (JNull, []))"

text \<open>\<^verbatim>\<open>get_app_details\<close> and \<^verbatim>\<open>search_reddit\<close> have the same shape.\<close>

definition get_app_details :: "(json \<Rightarrow> http_outcome) \<Rightarrow> json \<Rightarrow> json \<times> string list" where
  "get_app_details net app_id =
     (case net app_id of
        Transport_error \<Rightarrow> (JNull, [''App details error''])
      | Response status_code body \<Rightarrow>
          if status_code = 200
          then (case body of
                  None \<Rightarrow> (JNull, [''App details error''])
                | Some parsed \<Rightarrow> (parsed, []))
          else (JNull, []))"

definition search_reddit :: "(string \<Rightarrow> http_outcome) \<Rightarrow> string \<Rightarrow> json \<times> string list" where
  "search_reddit net query =
     (case net query of
        Transport_error \<Rightarrow> (JNull, [''Reddit search error''])
      | Response status_code body \<Rightarrow>
          if status_code = 200
          then (case body of
                  None \<Rightarrow> (JNull, [''Reddit search error''])
                | Some parsed \<Rightarrow> (parsed, []))
          else (JNull, []))"

text \<open>
  \<^verbatim>\<open>get_app_reviews\<close>: the \<^verbatim>\<open>try\<close> encloses the whole loop over the pages, so the
  first exception ends the loop and the reviews gathered so far are returned.
\<close>

fun fetch_pages ::
  "(json \<Rightarrow> nat \<Rightarrow> http_outcome) \<Rightarrow> json \<Rightarrow> nat list \<Rightarrow> json list \<Rightarrow> json list \<times> string list"
where
  "fetch_pages net app_id [] all_reviews = (all_reviews, [])"
| "fetch_pages net app_id (page # pages) all_reviews =
     (case net app_id page of
        Transport_error \<Rightarrow> (all_reviews, [''Error fetching reviews''])
      | Response status_code body \<Rightarrow>
          if status_code = 200
          then (case body of
                  None \<Rightarrow> (all_reviews, [''Error fetching reviews''])
                | Some data \<Rightarrow>
                   (case dict_get data ''feed'' (JObj []) of
                      Inl e \<Rightarrow> (all_reviews, [''Error fetching reviews''])
                    | Inr feed \<Rightarrow>
                       (case dict_get feed ''entry'' (JArr []) of
                          Inl e \<Rightarrow> (all_reviews, [''Error fetching reviews''])
                        | Inr entries \<Rightarrow>
                           (case entries of
                              JArr es \<Rightarrow> fetch_pages net app_id pages (all_reviews @ es)
                            | JObj kv \<Rightarrow> fetch_pages net app_id pages (all_reviews @ [entries])
                            | _ \<Rightarrow> fetch_pages net app_id pages all_reviews))))
          else fetch_pages net app_id pages all_reviews)"

definition get_app_reviews ::
  "(json \<Rightarrow> nat \<Rightarrow> http_outcome) \<Rightarrow> json \<Rightarrow> nat \<Rightarrow> json list \<times> string list" where
  "get_app_reviews net app_id max_pages = fetch_pages net app_id [1 ..< max_pages + 1] []"

section \<open>The collector (research\_dual\_camera\_apps.py)\<close>

text \<open>\<^verbatim>\<open>v[:n]\<close>: strings and lists can be sliced, nothing else can.\<close>

definition py_slice :: "nat \<Rightarrow> json \<Rightarrow> py_error + json" where
  "py_slice n v =
     (case v of
        JStr s \<Rightarrow> Inr (JStr (take n s))
      | JArr xs \<Rightarrow> Inr (JArr (take n xs))
      | _ \<Rightarrow> Inl TypeError)"

text \<open>The dictionary built for one app of a search result (lines 115 to 124).\<close>

definition competitor_of :: "json \<Rightarrow> py_error + json" where
  "competitor_of app =
     (case app of
        JObj kv \<Rightarrow>
          (case py_slice 200 (get_or kv ''description'' (JStr [])) of
             Inl e \<Rightarrow> Inl e
           | Inr snippet \<Rightarrow>
               Inr (JObj
                 [(''name'', get_or kv ''trackName'' JNull),
                  (''developer'', get_or kv ''artistName'' JNull),
                  (''price'', get_or kv ''formattedPrice'' (JStr ''N/A'')),
                  (''rating'', get_or kv ''averageUserRating'' (JStr ''N/A'')),
                  (''rating_count'', get_or kv ''userRatingCount'' (JNum 0)),
                  (''version'', get_or kv ''version'' (JStr ''N/A'')),
                  (''description_snippet'', snippet),
                  (''categories'', get_or kv ''genres'' (JArr []))]))
      | _ \<Rightarrow> Inl AttributeError)"

text \<open>
  Membership in the set \<^verbatim>\<open>seen_apps\<close> goes by hash and equality: \<^verbatim>\<open>True\<close> is the
  number 1 there, and a list or a dictionary cannot be hashed.
\<close>

fun hash_key :: "json \<Rightarrow> json option" where
  "hash_key JNull = Some JNull"
| "hash_key (JBool b) = Some (JNum (if b then 1 else 0))"
| "hash_key (JNum q) = Some (JNum q)"
| "hash_key (JStr s) = Some (JStr s)"
| "hash_key (JArr xs) = None"
| "hash_key (JObj kv) = None"

record collection =
  seen_apps :: "json set"
  competitors :: "json list"

text \<open>The body of the loop over the apps of one search result (lines 112 to 125).\<close>

definition collect_app :: "collection \<Rightarrow> json \<Rightarrow> py_error + collection" where
  "collect_app st app =
     (case dict_get app ''trackId'' JNull of
        Inl e \<Rightarrow> Inl e
      | Inr app_id \<Rightarrow>
          if \<not> py_truthy app_id then Inr st
          else (case hash_key app_id of
                  None \<Rightarrow> Inl TypeError
                | Some k \<Rightarrow>
                    if k \<in> seen_apps st then Inr st
                    else (case competitor_of app of
                            Inl e \<Rightarrow> Inl e
                          | Inr competitor \<Rightarrow>
                              Inr \<lparr>seen_apps = insert k (seen_apps st),
                                   competitors = competitors st @ [competitor]\<rparr>)))"

fun collect_apps :: "json list \<Rightarrow> collection \<Rightarrow> py_error + collection" where
  "collect_apps [] st = Inr st"
| "collect_apps (app # apps) st =
     (case collect_app st app of Inl e \<Rightarrow> Inl e | Inr st' \<Rightarrow> collect_apps apps st')"

text \<open>
  \<^verbatim>\<open>if results and results.get('results'): for app in results['results']: ...\<close>
  A truthy value under \<^verbatim>\<open>'results'\<close> that is not a list either cannot be iterated (a
  number or \<^verbatim>\<open>True\<close>) or yields strings (the characters of a string, the keys of a
  dictionary), on which \<^verbatim>\<open>app.get\<close> fails.
\<close>

definition collect_results :: "collection \<Rightarrow> json \<Rightarrow> py_error + collection" where
  "collect_results st results =
     (if \<not> py_truthy results then Inr st
      else (case dict_get results ''results'' JNull of
              Inl e \<Rightarrow> Inl e
            | Inr apps \<Rightarrow>
                if \<not> py_truthy apps then Inr st
                else (case apps of
                        JArr xs \<Rightarrow> collect_apps xs st
                      | JStr s \<Rightarrow> Inl AttributeError
                      | JObj kv \<Rightarrow> Inl AttributeError
                      | _ \<Rightarrow> Inl TypeError)))"

fun collect_terms ::
  "(string \<Rightarrow> http_outcome) \<Rightarrow> string list \<Rightarrow> collection \<Rightarrow> py_error + collection" where
  "collect_terms net [] st = Inr st"
| "collect_terms net (term # terms) st =
     (case collect_results st (fst (search_app_store net term)) of
        Inl e \<Rightarrow> Inl e
      | Inr st' \<Rightarrow> collect_terms net terms st')"

definition search_terms :: "string list" where
  "search_terms =
     [''dual camera recording'', ''front back camera simultaneous'', ''double camera video'',
      ''multicam recording iOS'']"

subsection \<open>Comparison of values\<close>

text \<open>
  \<^verbatim>\<open>==\<close> never raises: numbers and booleans compare by value, strings and lists by
  content, dictionaries by their entries whatever the order. \<^verbatim>\<open><\<close> is defined between
  two numbers (booleans included), two strings (by code points) and two lists (at the
  first position where they differ), and raises \<^verbatim>\<open>TypeError\<close> otherwise.
\<close>

fun num_of :: "json \<Rightarrow> rat option" where
  "num_of (JNum q) = Some q"
| "num_of (JBool b) = Some (if b then 1 else 0)"
| "num_of v = None"

fun py_eq :: "json \<Rightarrow> json \<Rightarrow> bool"
  and py_eq_list :: "json list \<Rightarrow> json list \<Rightarrow> bool"
  and py_entries_in :: "(string \<times> json) list \<Rightarrow> (string \<times> json) list \<Rightarrow> bool"
  and py_entry_in :: "string \<Rightarrow> json \<Rightarrow> (string \<times> json) list \<Rightarrow> bool"
where
  "py_eq (JArr xs) (JArr ys) = py_eq_list xs ys"
| "py_eq (JObj kv) (JObj kw) =
     (set (map fst kv) = set (map fst kw) \<and> py_entries_in kv kw)"
| "py_eq (JStr s) (JStr t) = (s = t)"
| "py_eq JNull JNull = True"
| "py_eq a b =
     (case (num_of a, num_of b) of (Some x, Some y) \<Rightarrow> x = y | _ \<Rightarrow> False)"
| "py_eq_list [] [] = True"
| "py_eq_list (x # xs) (y # ys) = (py_eq x y \<and> py_eq_list xs ys)"
| "py_eq_list xs ys = False"
| "py_entries_in [] kw = True"
| "py_entries_in ((k, v) # kv) kw = (py_entry_in k v kw \<and> py_entries_in kv kw)"
| "py_entry_in k v [] = False"
| "py_entry_in k v ((k', w) # kw) = (if k = k' then py_eq v w else py_entry_in k v kw)"

fun str_lt :: "string \<Rightarrow> string \<Rightarrow> bool" where
  "str_lt [] [] = False"
| "str_lt [] (y # ys) = True"
| "str_lt (x # xs) [] = False"
| "str_lt (x # xs) (y # ys) =
     (if x = y then str_lt xs ys else (of_char x :: nat) < of_char y)"

fun py_lt :: "json \<Rightarrow> json \<Rightarrow> py_error + bool"
  and py_lt_list :: "json list \<Rightarrow> json list \<Rightarrow> py_error + bool"
where
  "py_lt (JArr xs) (JArr ys) = py_lt_list xs ys"
| "py_lt (JStr s) (JStr t) = Inr (str_lt s t)"
| "py_lt a b =
     (case (num_of a, num_of b) of (Some x, Some y) \<Rightarrow> Inr (x < y) | _ \<Rightarrow> Inl TypeError)"
| "py_lt_list [] [] = Inr False"
| "py_lt_list [] (y # ys) = Inr True"
| "py_lt_list (x # xs) [] = Inr False"
| "py_lt_list (x # xs) (y # ys) = (if py_eq x y then py_lt_list xs ys else py_lt x y)"

text \<open>\<^verbatim>\<open><\<close> on the pairs the sort key returns: the first components that differ decide.\<close>

definition tuple_lt :: "json \<times> json \<Rightarrow> json \<times> json \<Rightarrow> py_error + bool" where
  "tuple_lt a b =
     (if py_eq (fst a) (fst b)
      then (if py_eq (snd a) (snd b) then Inr False else py_lt (snd a) (snd b))
      else py_lt (fst a) (fst b))"

subsection \<open>Ranking\<close>

text \<open>\<^verbatim>\<open>lambda x: (x.get('rating', 0), x.get('rating_count', 0))\<close>\<close>

definition rank_key :: "json \<Rightarrow> py_error + (json \<times> json)" where
  "rank_key x =
     (case x of
        JObj kv \<Rightarrow> Inr (get_or kv ''rating'' (JNum 0), get_or kv ''rating_count'' (JNum 0))
      | _ \<Rightarrow> Inl AttributeError)"

text \<open>
  \<^verbatim>\<open>sorted(xs, key=f, reverse=True)\<close> computes the key of every element, reverses the
  list, sorts it stably in ascending order asking only \<^verbatim>\<open><\<close> on the keys, and reverses
  the result. The ascending sort is the interpreter's; here it is insertion from the
  left, each element going behind the elements it is not less than. Every stable sort
  returns the same list when no comparison raises, and the call raises when a
  comparison it makes does.
\<close>

fun keyed :: "('a \<Rightarrow> py_error + 'k) \<Rightarrow> 'a list \<Rightarrow> py_error + ('k \<times> 'a) list" where
  "keyed f [] = Inr []"
| "keyed f (x # xs) =
     (case f x of
        Inl e \<Rightarrow> Inl e
      | Inr k \<Rightarrow> (case keyed f xs of Inl e \<Rightarrow> Inl e | Inr ks \<Rightarrow> Inr ((k, x) # ks)))"

fun insert_by ::
  "('k \<Rightarrow> 'k \<Rightarrow> py_error + bool) \<Rightarrow> 'k \<times> 'a \<Rightarrow> ('k \<times> 'a) list \<Rightarrow> py_error + ('k \<times> 'a) list"
where
  "insert_by lt x [] = Inr [x]"
| "insert_by lt x (y # ys) =
     (case lt (fst x) (fst y) of
        Inl e \<Rightarrow> Inl e
      | Inr True \<Rightarrow> Inr (x # y # ys)
      | Inr False \<Rightarrow> (case insert_by lt x ys of Inl e \<Rightarrow> Inl e | Inr zs \<Rightarrow> Inr (y # zs)))"

fun sort_by ::
  "('k \<Rightarrow> 'k \<Rightarrow> py_error + bool) \<Rightarrow> ('k \<times> 'a) list \<Rightarrow> ('k \<times> 'a) list \<Rightarrow> py_error + ('k \<times> 'a) list"
where
  "sort_by lt [] acc = Inr acc"
| "sort_by lt (x # xs) acc =
     (case insert_by lt x acc of Inl e \<Rightarrow> Inl e | Inr acc' \<Rightarrow> sort_by lt xs acc')"

definition sorted_reverse ::
  "('k \<Rightarrow> 'k \<Rightarrow> py_error + bool) \<Rightarrow> ('a \<Rightarrow> py_error + 'k) \<Rightarrow> 'a list \<Rightarrow> py_error + 'a list" where
  "sorted_reverse lt f xs =
     (case keyed f xs of
        Inl e \<Rightarrow> Inl e
      | Inr ks \<Rightarrow>
          (case sort_by lt (rev ks) [] of
             Inl e \<Rightarrow> Inl e
           | Inr sorted_ks \<Rightarrow> Inr (map snd (rev sorted_ks))))"

text \<open>Lines 130 to 134.\<close>

definition rank_competitors :: "json list \<Rightarrow> py_error + json list" where
  "rank_competitors cs =
     (case sorted_reverse tuple_lt rank_key cs of
        Inl e \<Rightarrow> Inl e
      | Inr ranked \<Rightarrow> Inr (take 10 ranked))"

text \<open>
  Lines 107 to 134 of \<^verbatim>\<open>main\<close>: collection over the search terms, then ranking.
  The lookup of the target app before them (lines 73 to 96) and the discussion queries
  after them (lines 136 to 152) add nothing to the competitors and are not part of
  the model.
\<close>

definition collect_competitors :: "(string \<Rightarrow> http_outcome) \<Rightarrow> string list \<Rightarrow> py_error + json list" where
  "collect_competitors net terms =
     (case collect_terms net terms \<lparr>seen_apps = {}, competitors = []\<rparr> of
        Inl e \<Rightarrow> Inl e
      | Inr st \<Rightarrow> Inr (competitors st))"

definition main_competitors :: "(string \<Rightarrow> http_outcome) \<Rightarrow> py_error + json list" where
  "main_competitors net =
     (case collect_competitors net search_terms of
        Inl e \<Rightarrow> Inl e
      | Inr cs \<Rightarrow> rank_competitors cs)"

section \<open>The enricher (detailed\_feature\_research.py)\<close>

subsection \<open>The four taxonomies\<close>

definition research_pricing_models :: json where
  "research_pricing_models =
     JObj
       [(''freemium'', JObj
           [(''description'', JStr ''Free download with in-app purchases or subscriptions''),
            (''examples'', JArr
               [JStr ''MixCam'',
                JStr ''DoubleTake'',
                JStr ''Fotee CamFusion'']),
            (''typical_features'', JArr
               [JStr ''Free basic recording'',
                JStr ''Pro features locked (4K, no watermark, advanced editing)'',
                JStr ''Subscription: $2.99-9.99/month or $19.99-49.99/year''])]),
        (''paid_upfront'', JObj
           [(''description'', JStr ''One-time purchase''),
            (''examples'', JArr
               [JStr ''ProCam'',
                JStr ''Cadrage'',
                JStr ''ProShot'']),
            (''typical_prices'', JStr ''$4.99-19.99'')]),
        (''hybrid'', JObj
           [(''description'', JStr ''Paid app with additional IAPs''),
            (''examples'', JArr
               [JStr ''FilmicPro'',
                JStr ''ProMovie'']),
            (''model'', JStr ''Initial purchase + optional premium features'')])]"

definition identify_standard_features_2025 :: json where
  "identify_standard_features_2025 =
     JObj
       [(''core_features'', JArr
           [JStr ''Simultaneous front and back camera recording'',
            JStr ''Picture-in-picture (PiP) and split-screen layouts'',
            JStr ''4K resolution support on both cameras'',
            JStr ''HDR and Dolby Vision recording'',
            JStr ''Real-time switching between camera views'',
            JStr ''Multiple aspect ratios (16:9, 9:16, 1:1, 4:3)'',
            JStr ''Grid overlays and composition guides'']),
        (''quality_features'', JArr
           [JStr ''60fps recording support'',
            JStr ''Optical and digital zoom on both cameras'',
            JStr ''Manual focus, exposure, and white balance controls'',
            JStr ''Low-light enhancement'',
            JStr ''Image stabilization'',
            JStr ''ProRes and LOG recording options'']),
        (''editing_features'', JArr
           [JStr ''Built-in video trimming and merging'',
            JStr ''Audio mixing and noise reduction'',
            JStr ''Filters and color grading presets'',
            JStr ''Text and sticker overlays'',
            JStr ''Background blur/bokeh effects'',
            JStr ''Speed controls (slow motion, time lapse)'']),
        (''sharing_features'', JArr
           [JStr ''Direct export to social media (TikTok, Instagram, YouTube)'',
            JStr ''Cloud storage integration'',
            JStr ''Export in multiple resolutions'',
            JStr ''Live streaming capability'',
            JStr ''QR code sharing'']),
        (''ui_features'', JArr
           [JStr ''Gesture-based controls'',
            JStr ''Dark mode support'',
            JStr ''Customizable recording interface'',
            JStr ''Quick settings access'',
            JStr ''One-tap recording start''])]"

definition identify_innovative_features_2025 :: json where
  "identify_innovative_features_2025 =
     JObj
       [(''ai_features'', JArr
           [JStr ''AI-powered scene detection and optimization'',
            JStr ''Automatic subject tracking across both cameras'',
            JStr ''AI background replacement and augmentation'',
            JStr ''Intelligent audio enhancement'',
            JStr ''Auto-highlight reel generation'']),
        (''advanced_capture'', JArr
           [JStr ''RAW photo capture from video frames'',
            JStr ''Multi-camera angle recording (3+ cameras via external devices)'',
            JStr ''360-degree camera integration'',
            JStr ''LiDAR-based depth effects'',
            JStr ''Spatial video recording (Vision Pro compatible)'']),
        (''collaboration'', JArr
           [JStr (''Remote camera control (control friend'' @ [CHR 0x27] @ ''s phone as second camera)''),
            JStr ''Multi-device sync for group recordings'',
            JStr ''Real-time collaborative editing'',
            JStr ''Live director mode for multiple camera angles'']),
        (''creative_tools'', JArr
           [JStr ''AR effects and filters on both cameras simultaneously'',
            JStr ''Green screen/chroma key support'',
            JStr ''Split-screen with different time offsets'',
            JStr ''Audio reactivity and visualization'',
            JStr ''Gesture-triggered recording controls'']),
        (''professional'', JArr
           [JStr ''External monitor support'',
            JStr ''Waveform and vectorscope displays'',
            JStr ''Timecode synchronization'',
            JStr ''LUT import and export'',
            JStr ''Direct integration with professional NLEs''])]"

definition research_ui_trends_2025 :: json where
  "research_ui_trends_2025 =
     JObj
       [(''design_trends'', JArr
           [JStr ''Liquid glass morphism/glassmorphism effects'',
            JStr ''Neumorphism for tactile controls'',
            JStr ''Dynamic Island integration (iPhone 14+)'',
            JStr ''Adaptive layouts that respond to device orientation'',
            JStr ''Minimalist interfaces with hidden advanced controls'']),
        (''interaction_patterns'', JArr
           [JStr ''Swipe gestures for quick mode switching'',
            JStr ''Long-press for additional options'',
            JStr ''Floating/movable control panels'',
            JStr ''Voice commands for hands-free operation'',
            JStr ''3D Touch/Haptic feedback for confirmation'']),
        (''visual_elements'', JArr
           [JStr ''Translucent backgrounds with blur effects'',
            JStr ''Animated transitions between states'',
            JStr ''Real-time preview effects'',
            JStr ''Color-coded modes and settings'',
            JStr ''Contextual tooltips and onboarding'']),
        (''accessibility'', JArr
           [JStr ''Voice-over optimization'',
            JStr ''High contrast modes'',
            JStr ''Large touch targets'',
            JStr (''Simplified '' @ [CHR 0x27] @ ''Easy Mode'' @ [CHR 0x27] @ '' interfaces''),
            JStr ''Customizable button layouts''])]"

subsection \<open>main\<close>

text \<open>\<^verbatim>\<open>d[k] = v\<close> with a string key: only a dictionary accepts it; an existing key
  keeps its place, a new one goes to the end.\<close>

definition py_setitem :: "json \<Rightarrow> string \<Rightarrow> json \<Rightarrow> py_error + json" where
  "py_setitem d k v =
     (case d of JObj kv \<Rightarrow> Inr (JObj (AList.update k v kv)) | _ \<Rightarrow> Inl TypeError)"

text \<open>
  The loop over \<^verbatim>\<open>data['competitors'][:5]\<close> only prints, but it reads
  \<^verbatim>\<open>competitor['name']\<close> and asks \<^verbatim>\<open>'Dual' in\<close> of it, which a string, a list and a
  dictionary answer and any other value refuses.
\<close>

definition name_check :: "json \<Rightarrow> py_error + unit" where
  "name_check competitor =
     (case py_getitem competitor ''name'' of
        Inl e \<Rightarrow> Inl e
      | Inr name \<Rightarrow>
          (case name of
             JStr s \<Rightarrow> Inr ()
           | JArr xs \<Rightarrow> Inr ()
           | JObj kv \<Rightarrow> Inr ()
           | _ \<Rightarrow> Inl TypeError))"

fun name_checks :: "json list \<Rightarrow> py_error + unit" where
  "name_checks [] = Inr ()"
| "name_checks (c # cs) = (case name_check c of Inl e \<Rightarrow> Inl e | Inr u \<Rightarrow> name_checks cs)"

definition competitors_loop :: "json \<Rightarrow> py_error + unit" where
  "competitors_loop data =
     (case py_getitem data ''competitors'' of
        Inl e \<Rightarrow> Inl e
      | Inr cs \<Rightarrow>
          (case py_slice 5 cs of
             Inl e \<Rightarrow> Inl e
           | Inr (JArr xs) \<Rightarrow> name_checks xs
           | Inr (JStr s) \<Rightarrow> (if s = [] then Inr () else Inl TypeError)
           | Inr _ \<Rightarrow> Inl TypeError))"

definition review_analysis :: "json list \<Rightarrow> json list \<times> json list \<times> json list \<Rightarrow> json" where
  "review_analysis reviews buckets =
     (case buckets of (cs, fs, ps) \<Rightarrow>
        JObj [(''total_reviews_analyzed'', JNum (of_nat (length reviews))),
              (''complaints'', JArr (take 10 cs)),
              (''feature_requests'', JArr (take 10 fs)),
              (''positive_mentions'', JArr (take 10 ps))])"

text \<open>\<^verbatim>\<open>data[outer][inner] = v\<close>\<close>

definition set_nested :: "json \<Rightarrow> string \<Rightarrow> string \<Rightarrow> json \<Rightarrow> py_error + json" where
  "set_nested data outer inner v =
     (case py_getitem data outer of
        Inl e \<Rightarrow> Inl e
      | Inr d \<Rightarrow>
          (case py_setitem d inner v of
             Inl e \<Rightarrow> Inl e
           | Inr d' \<Rightarrow> py_setitem data outer d'))"

text \<open>
  \<^verbatim>\<open>main\<close> from the loaded document to the document it writes (lines 218 to 264); a
  document that cannot be read or parsed ends the run before this.
\<close>

definition enrich :: "(json \<Rightarrow> nat \<Rightarrow> http_outcome) \<Rightarrow> json \<Rightarrow> py_error + json" where
  "enrich net data =
     (case py_getitem data ''mixcam'' of Inl e \<Rightarrow> Inl e | Inr mixcam \<Rightarrow>
     (case py_getitem mixcam ''app_id'' of Inl e \<Rightarrow> Inl e | Inr mixcam_id \<Rightarrow>
     (let reviews = fst (get_app_reviews net mixcam_id 5) in
     (case analyze_reviews reviews of Inl e \<Rightarrow> Inl e | Inr buckets \<Rightarrow>
     (case competitors_loop data of Inl e \<Rightarrow> Inl e | Inr u \<Rightarrow>
     (case set_nested data ''market_insights'' ''standard_features''
             identify_standard_features_2025 of Inl e \<Rightarrow> Inl e | Inr d1 \<Rightarrow>
     (case set_nested d1 ''market_insights'' ''innovative_features''
             identify_innovative_features_2025 of Inl e \<Rightarrow> Inl e | Inr d2 \<Rightarrow>
     (case set_nested d2 ''market_insights'' ''pricing_models''
             research_pricing_models of Inl e \<Rightarrow> Inl e | Inr d3 \<Rightarrow>
     (case set_nested d3 ''market_insights'' ''ui_trends''
             research_ui_trends_2025 of Inl e \<Rightarrow> Inl e | Inr d4 \<Rightarrow>
        set_nested d4 ''mixcam'' ''review_analysis'' (review_analysis reviews buckets))))))))))"

section \<open>Predicates and reference functions of the statements\<close>

subsection \<open>Reviews the classifier accepts\<close>

text \<open>
  A field of a review is acceptable when it is absent, or a dictionary whose
  \<^verbatim>\<open>label\<close> is absent or of the expected kind; the review itself is a dictionary.
\<close>

definition label_ok :: "(json \<Rightarrow> bool) \<Rightarrow> json \<Rightarrow> string \<Rightarrow> bool" where
  "label_ok ok review field =
     (case review of
        JObj kv \<Rightarrow>
          (case map_of kv field of
             None \<Rightarrow> True
           | Some (JObj lv) \<Rightarrow> (case map_of lv ''label'' of None \<Rightarrow> True | Some l \<Rightarrow> ok l)
           | Some _ \<Rightarrow> False)
      | _ \<Rightarrow> False)"

definition is_text :: "json \<Rightarrow> bool" where
  "is_text v = (case v of JStr s \<Rightarrow> True | _ \<Rightarrow> False)"

definition int_accepts :: "json \<Rightarrow> bool" where
  "int_accepts v = (case py_int v of Inr n \<Rightarrow> True | Inl e \<Rightarrow> False)"

definition wf_review :: "json \<Rightarrow> bool" where
  "wf_review review \<longleftrightarrow>
     label_ok is_text review ''content'' \<and> label_ok is_text review ''title'' \<and>
     label_ok int_accepts review ''im:rating''"

text \<open>
  What the classifier reads of a review it accepts: the title and the content as
  written, the rating as an integer, and the text it searches for keywords, which is
  the lower-cased title, one space, and the lower-cased content.
\<close>

definition raw_title :: "json \<Rightarrow> string" where
  "raw_title review =
     (case label_of review ''title'' (JStr []) of Inr (JStr s) \<Rightarrow> s | _ \<Rightarrow> [])"

definition raw_content :: "json \<Rightarrow> string" where
  "raw_content review =
     (case label_of review ''content'' (JStr []) of Inr (JStr s) \<Rightarrow> s | _ \<Rightarrow> [])"

definition rating_val :: "json \<Rightarrow> int" where
  "rating_val review = (case review_rating review of Inr n \<Rightarrow> n | Inl e \<Rightarrow> 0)"

definition search_text :: "json \<Rightarrow> string" where
  "search_text review = str_lower (raw_title review) @ '' '' @ str_lower (raw_content review)"

definition complaint_of :: "json \<Rightarrow> json" where
  "complaint_of review =
     JObj [(''rating'', JNum (of_int (rating_val review))),
           (''title'', JStr (raw_title review)),
           (''snippet'', JStr (take 200 (str_lower (raw_content review))))]"

definition text_of :: "json \<Rightarrow> json" where
  "text_of review =
     JObj [(''rating'', JNum (of_int (rating_val review))),
           (''text'', JStr (take 200 (str_lower (raw_content review))))]"


subsection \<open>Example reviews\<close>

definition low_rated_review :: json where
  "low_rated_review =
     JObj [(''im:rating'', JObj [(''label'', JStr ''2'')]),
           (''title'', JObj [(''label'', JStr ''Love the idea'')]),
           (''content'', JObj [(''label'', JStr ''Crashes on start'')])]"

definition praising_review :: json where
  "praising_review =
     JObj [(''im:rating'', JObj [(''label'', JStr ''5'')]),
           (''title'', JObj [(''label'', JStr ''GREAT app'')]),
           (''content'', JObj [(''label'', JStr ''Works every time'')])]"

definition wishing_review :: json where
  "wishing_review =
     JObj [(''im:rating'', JObj [(''label'', JStr ''4'')]),
           (''title'', JObj [(''label'', JStr ''Nice'')]),
           (''content'', JObj [(''label'', JStr ''I Wish it had zoom'')])]"

definition shouting_review :: json where
  "shouting_review =
     JObj [(''content'', JObj [(''label'', JStr (replicate 500 (CHR ''A'')))])]"

definition null_content_review :: json where
  "null_content_review =
     JObj [(''im:rating'', JObj [(''label'', JStr ''2'')]), (''content'', JNull)]"

definition split_love_review :: json where
  "split_love_review =
     JObj [(''im:rating'', JObj [(''label'', JStr ''5'')]),
           (''title'', JObj [(''label'', JStr ''lo'')]),
           (''content'', JObj [(''label'', JStr ''ve'')])]"

definition would_like_review :: json where
  "would_like_review =
     JObj [(''im:rating'', JObj [(''label'', JStr ''5'')]),
           (''title'', JObj [(''label'', JStr ''would'')]),
           (''content'', JObj [(''label'', JStr ''like dark mode'')])]"

definition wish_unparsable_review :: json where
  "wish_unparsable_review =
     JObj [(''im:rating'', JObj [(''label'', JStr ''five'')]),
           (''content'', JObj [(''label'', JStr ''I wish it had zoom'')])]"

definition unparsable_rating_review :: json where
  "unparsable_rating_review =
     JObj [(''im:rating'', JObj [(''label'', JStr ''five'')]),
           (''title'', JObj [(''label'', JStr ''Good'')]),
           (''content'', JObj [(''label'', JStr ''Fine'')])]"

subsection \<open>Ranking by numbers\<close>

text \<open>
  The rating and the rating count of a competitor, as numbers, and the competitors
  whose sort key is this pair of numbers. \<open>ranks_before a b\<close> says that \<open>a\<close> may stand
  before \<open>b\<close> in an order that descends by rating first and rating count second.
\<close>

definition rating_of :: "json \<Rightarrow> rat" where
  "rating_of x =
     (case x of
        JObj kv \<Rightarrow> (case get_or kv ''rating'' (JNum 0) of JNum q \<Rightarrow> q | _ \<Rightarrow> 0)
      | _ \<Rightarrow> 0)"

definition rating_count_of :: "json \<Rightarrow> rat" where
  "rating_count_of x =
     (case x of
        JObj kv \<Rightarrow> (case get_or kv ''rating_count'' (JNum 0) of JNum q \<Rightarrow> q | _ \<Rightarrow> 0)
      | _ \<Rightarrow> 0)"

definition numeric_keys :: "json \<Rightarrow> bool" where
  "numeric_keys x \<longleftrightarrow> rank_key x = Inr (JNum (rating_of x), JNum (rating_count_of x))"

definition ranks_before :: "json \<Rightarrow> json \<Rightarrow> bool" where
  "ranks_before a b \<longleftrightarrow>
     rating_of a > rating_of b \<or>
     (rating_of a = rating_of b \<and> rating_count_of a \<ge> rating_count_of b)"

text \<open>Insertion behind the elements that are not greater, without the errors.\<close>

fun ins_after :: "('b \<Rightarrow> 'o::linorder) \<Rightarrow> 'b \<Rightarrow> 'b list \<Rightarrow> 'b list" where
  "ins_after ord x [] = [x]"
| "ins_after ord x (y # ys) =
     (if ord x < ord y then x # y # ys else y # ins_after ord x ys)"

definition competitor :: "string \<Rightarrow> rat \<Rightarrow> rat \<Rightarrow> json" where
  "competitor name r c =
     JObj [(''name'', JStr name), (''rating'', JNum r), (''rating_count'', JNum c)]"

definition unrated_competitor :: "string \<Rightarrow> rat \<Rightarrow> json" where
  "unrated_competitor name c =
     JObj [(''name'', JStr name), (''rating'', JStr ''N/A''), (''rating_count'', JNum c)]"

subsection \<open>First occurrences\<close>

text \<open>
  The identifier under which an app enters \<^verbatim>\<open>seen_apps\<close>: the hash key of its
  \<^verbatim>\<open>trackId\<close> when that is truthy, none when the identifier is missing, \<^verbatim>\<open>null\<close>,
  zero or empty. \<open>first_by k xs\<close> keeps of \<open>xs\<close> the first element of each value of \<open>k\<close>,
  in order. \<open>raw_apps\<close> are the apps of the search results of all terms, in order.
\<close>

definition track_key :: "json \<Rightarrow> json option" where
  "track_key app =
     (case app of
        JObj kv \<Rightarrow>
          (if py_truthy (get_or kv ''trackId'' JNull)
           then hash_key (get_or kv ''trackId'' JNull) else None)
      | _ \<Rightarrow> None)"

fun first_by :: "('a \<Rightarrow> 'k) \<Rightarrow> 'a list \<Rightarrow> 'a list" where
  "first_by k [] = []"
| "first_by k (x # xs) = x # first_by k (filter (\<lambda>y. k y \<noteq> k x) xs)"

definition fresh :: "json set \<Rightarrow> json list \<Rightarrow> json list" where
  "fresh seen apps =
     first_by track_key
       (filter (\<lambda>a. case track_key a of None \<Rightarrow> False | Some k \<Rightarrow> k \<notin> seen) apps)"

definition keys_of :: "json list \<Rightarrow> json set" where
  "keys_of apps = {k. \<exists>a\<in>set apps. track_key a = Some k}"

definition apps_of :: "json \<Rightarrow> json list" where
  "apps_of results =
     (case results of
        JObj kv \<Rightarrow> (case map_of kv ''results'' of Some (JArr xs) \<Rightarrow> xs | _ \<Rightarrow> [])
      | _ \<Rightarrow> [])"

definition raw_apps :: "(string \<Rightarrow> http_outcome) \<Rightarrow> string list \<Rightarrow> json list" where
  "raw_apps net terms = concat (map (\<lambda>term. apps_of (fst (search_app_store net term))) terms)"

subsection \<open>Example search results\<close>

definition store_app :: "rat \<Rightarrow> string \<Rightarrow> json" where
  "store_app track_id name = JObj [(''trackId'', JNum track_id), (''trackName'', JStr name)]"

definition rated_app :: "rat \<Rightarrow> string \<Rightarrow> rat \<Rightarrow> rat \<Rightarrow> json" where
  "rated_app track_id name r c =
     JObj [(''trackId'', JNum track_id), (''trackName'', JStr name),
           (''averageUserRating'', JNum r), (''userRatingCount'', JNum c)]"

definition answering :: "json list \<Rightarrow> string \<Rightarrow> http_outcome" where
  "answering apps query = Response 200 (Some (JObj [(''resultCount'', JNum (of_nat (length apps))),
                                                     (''results'', JArr apps)]))"

subsection \<open>Failed requests\<close>

definition request_failed :: "http_outcome \<Rightarrow> bool" where
  "request_failed outcome =
     (case outcome of Transport_error \<Rightarrow> True | Response status_code body \<Rightarrow> status_code \<noteq> 200)"

definition one_review_feed :: json where
  "one_review_feed = JObj [(''feed'', JObj [(''entry'', JArr [low_rated_review])])]"

definition first_page_down :: "json \<Rightarrow> nat \<Rightarrow> http_outcome" where
  "first_page_down app_id page =
     (if page = 1 then Transport_error else Response 200 (Some one_review_feed))"

subsection \<open>An example snapshot\<close>

definition snapshot :: json where
  "snapshot =
     JObj [(''research_date'', JStr ''October 24, 2025''),
           (''mixcam'', JObj [(''name'', JStr ''MixCam''), (''app_id'', JNum 5)]),
           (''competitors'', JArr [JObj [(''name'', JStr ''Dual Cam''), (''rating'', JNum 4)]]),
           (''market_insights'',
              JObj [(''standard_features'', JArr []), (''innovative_features'', JArr []),
                    (''user_complaints'', JArr []), (''pricing_models'', JArr []),
                    (''ui_trends'', JArr [])])]"

section \<open>The review classifier: results\<close>

subsection \<open>What one pass of the loop does\<close>

lemma eq_if_distrib: "x = (if c then a else b) \<Longrightarrow> (if c then x = a else x = b)"
  by (simp split: if_splits)

lemma analyze_review_cases:
  assumes "analyze_review b review = Inr b'"
  obtains content title rating title_label where
    "review_content review = Inr content"
    "review_title review = Inr title"
    "review_rating review = Inr rating"
    "label_of review ''title'' (JStr []) = Inr title_label"
    "complaints b' =
       (if rating \<le> 3 then complaints b @ [complaint_record rating title_label content]
        else complaints b)"
    "features_requested b' =
       (if any_keyword_in feature_keywords (full_text title content)
        then features_requested b @ [text_record rating content]
        else features_requested b)"
    "positive_features b' =
       (if 4 \<le> rating \<and> any_keyword_in positive_keywords (full_text title content)
        then positive_features b @ [text_record rating content]
        else positive_features b)"
  using assms unfolding analyze_review_def Let_def
  by (auto split: sum.splits if_splits)

lemma review_content_cases:
  assumes "review_content review = Inr content"
  obtains raw where
    "label_of review ''content'' (JStr []) = Inr (JStr raw)" "content = str_lower raw"
  using assms unfolding review_content_def py_lower_def
  by (auto split: sum.splits json.splits)

lemma review_title_cases:
  assumes "review_title review = Inr title"
  obtains raw where
    "label_of review ''title'' (JStr []) = Inr (JStr raw)" "title = str_lower raw"
  using assms unfolding review_title_def py_lower_def
  by (auto split: sum.splits json.splits)

lemma any_feature_keyword:
  "any_keyword_in feature_keywords t \<longleftrightarrow>
     (\<exists>k\<in>{''wish'', ''need'', ''should'', ''add'', ''feature'', ''want'', ''would like'',
           ''missing''}. sublist k t)"
  by (simp add: any_keyword_in_def feature_keywords_def)

lemma any_positive_keyword:
  "any_keyword_in positive_keywords t \<longleftrightarrow>
     (\<exists>k\<in>{''love'', ''great'', ''awesome'', ''best'', ''perfect'', ''amazing'',
           ''excellent''}. sublist k t)"
  by (simp add: any_keyword_in_def positive_keywords_def)

lemma label_of_missing:
  "map_of kv field = None \<Longrightarrow> label_of (JObj kv) field dflt = Inr dflt"
  by (simp add: label_of_def dict_get_def get_or_def)

lemma int_of_str_zero: "int_of_str ''0'' = Some 0"
  by code_simp

lemma review_rating_missing:
  "map_of kv ''im:rating'' = None \<Longrightarrow> review_rating (JObj kv) = Inr 0"
  by (simp add: review_rating_def label_of_missing py_int_def int_of_str_zero)

lemma review_content_missing:
  "map_of kv ''content'' = None \<Longrightarrow> review_content (JObj kv) = Inr []"
  by (simp add: review_content_def label_of_missing py_lower_def str_lower_def)

lemma review_title_missing:
  "map_of kv ''title'' = None \<Longrightarrow> review_title (JObj kv) = Inr []"
  by (simp add: review_title_def label_of_missing py_lower_def str_lower_def)

subsection \<open>Which reviews are classified\<close>

lemma label_of_Inr:
  "(\<exists>l. label_of review field dflt = Inr l \<and> ok l) \<longleftrightarrow>
     (case review of
        JObj kv \<Rightarrow>
          (case map_of kv field of
             None \<Rightarrow> ok dflt
           | Some (JObj lv) \<Rightarrow> (case map_of lv ''label'' of None \<Rightarrow> ok dflt | Some l \<Rightarrow> ok l)
           | Some _ \<Rightarrow> False)
      | _ \<Rightarrow> False)"
  unfolding label_of_def dict_get_def get_or_def
  by (cases review) (auto split: option.splits json.splits)

lemma label_of_ok:
  "ok dflt \<Longrightarrow>
     (\<exists>l. label_of review field dflt = Inr l \<and> ok l) \<longleftrightarrow> label_ok ok review field"
  unfolding label_of_Inr label_ok_def
  by (auto split: json.splits option.splits)

lemma int_accepts_zero: "int_accepts (JStr ''0'')"
  by (simp add: int_accepts_def py_int_def int_of_str_zero)

lemma is_text_empty: "is_text (JStr [])"
  by (simp add: is_text_def)

lemma py_lower_Inr: "(\<exists>s. py_lower l = Inr s) \<longleftrightarrow> is_text l"
  by (cases l) (simp_all add: py_lower_def is_text_def)

lemma py_int_Inr: "(\<exists>n. py_int l = Inr n) \<longleftrightarrow> int_accepts l"
  by (cases "py_int l") (simp_all add: int_accepts_def)

lemma review_content_ok:
  "(\<exists>c. review_content review = Inr c) \<longleftrightarrow> label_ok is_text review ''content''"
proof -
  have "(\<exists>c. review_content review = Inr c) \<longleftrightarrow>
        (\<exists>l. label_of review ''content'' (JStr []) = Inr l \<and> is_text l)"
    using py_lower_Inr by (auto simp: review_content_def split: sum.splits)
  then show ?thesis
    using label_of_ok [of is_text "JStr []"] is_text_empty by simp
qed

lemma review_title_ok:
  "(\<exists>c. review_title review = Inr c) \<longleftrightarrow> label_ok is_text review ''title''"
proof -
  have "(\<exists>c. review_title review = Inr c) \<longleftrightarrow>
        (\<exists>l. label_of review ''title'' (JStr []) = Inr l \<and> is_text l)"
    using py_lower_Inr by (auto simp: review_title_def split: sum.splits)
  then show ?thesis
    using label_of_ok [of is_text "JStr []"] is_text_empty by simp
qed

lemma review_rating_ok:
  "(\<exists>c. review_rating review = Inr c) \<longleftrightarrow> label_ok int_accepts review ''im:rating''"
proof -
  have "(\<exists>c. review_rating review = Inr c) \<longleftrightarrow>
        (\<exists>l. label_of review ''im:rating'' (JStr ''0'') = Inr l \<and> int_accepts l)"
    using py_int_Inr by (auto simp: review_rating_def split: sum.splits)
  then show ?thesis
    using label_of_ok [of int_accepts "JStr ''0''"] int_accepts_zero by simp
qed

lemma analyze_review_ok:
  "(\<exists>b'. analyze_review b review = Inr b') \<longleftrightarrow> wf_review review"
proof
  assume "\<exists>b'. analyze_review b review = Inr b'"
  then obtain b' where "analyze_review b review = Inr b'" ..
  then obtain c t r where "review_content review = Inr c" "review_title review = Inr t"
      "review_rating review = Inr r"
    by (rule analyze_review_cases)
  then show "wf_review review"
    using review_content_ok [of review] review_title_ok [of review] review_rating_ok [of review]
    unfolding wf_review_def by blast
next
  assume wf: "wf_review review"
  obtain c where c: "review_content review = Inr c"
    using wf review_content_ok [of review] unfolding wf_review_def by blast
  obtain t where t: "review_title review = Inr t"
    using wf review_title_ok [of review] unfolding wf_review_def by blast
  obtain r where r: "review_rating review = Inr r"
    using wf review_rating_ok [of review] unfolding wf_review_def by blast
  obtain tl where tl: "label_of review ''title'' (JStr []) = Inr tl"
    using t by (auto simp: review_title_def split: sum.splits)
  show "\<exists>b'. analyze_review b review = Inr b'"
    by (simp add: analyze_review_def c t r tl Let_def)
qed

lemma analyze_loop_ok:
  "(\<exists>b'. analyze_loop reviews b = Inr b') \<longleftrightarrow> (\<forall>r\<in>set reviews. wf_review r)"
proof (induction reviews arbitrary: b)
  case Nil
  then show ?case by simp
next
  case (Cons r rs)
  show ?case
  proof (cases "analyze_review b r")
    case (Inl e)
    then have "\<not> wf_review r" using analyze_review_ok [of b r] by simp
    with Inl show ?thesis by simp
  next
    case (Inr b1)
    then have "wf_review r" using analyze_review_ok [of b r] by blast
    with Inr Cons.IH [of b1] show ?thesis by simp
  qed
qed

lemma analyze_reviews_ok:
  "(\<exists>cs fs ps. analyze_reviews reviews = Inr (cs, fs, ps)) \<longleftrightarrow>
     (\<forall>r\<in>set reviews. wf_review r)"
proof -
  have "(\<exists>cs fs ps. analyze_reviews reviews = Inr (cs, fs, ps)) \<longleftrightarrow>
        (\<exists>b'. analyze_loop reviews
                 \<lparr>complaints = [], features_requested = [], positive_features = []\<rparr> = Inr b')"
    unfolding analyze_reviews_def by (auto split: sum.splits)
  then show ?thesis using analyze_loop_ok by simp
qed

text \<open>The buckets only grow: what a pass appends stays to the end of the call.\<close>

lemma analyze_review_grows:
  assumes "analyze_review b review = Inr b'"
  shows "prefix (complaints b) (complaints b') \<and>
         prefix (features_requested b) (features_requested b') \<and>
         prefix (positive_features b) (positive_features b')"
  using assms by (elim analyze_review_cases) simp

lemma analyze_loop_grows:
  "analyze_loop reviews b = Inr b' \<Longrightarrow>
     prefix (complaints b) (complaints b') \<and>
     prefix (features_requested b) (features_requested b') \<and>
     prefix (positive_features b) (positive_features b')"
proof (induction reviews arbitrary: b)
  case Nil
  then show ?case by simp
next
  case (Cons r rs)
  from Cons.prems obtain b1 where b1: "analyze_review b r = Inr b1"
    and rest: "analyze_loop rs b1 = Inr b'"
    by (auto split: sum.splits)
  from analyze_review_grows [OF b1] Cons.IH [OF rest] show ?case
    using prefix_order.order_trans by blast
qed

subsection \<open>What the whole call returns\<close>

lemma wf_review_fields:
  assumes "wf_review review"
  shows "label_of review ''title'' (JStr []) = Inr (JStr (raw_title review))"
    and "label_of review ''content'' (JStr []) = Inr (JStr (raw_content review))"
    and "review_title review = Inr (str_lower (raw_title review))"
    and "review_content review = Inr (str_lower (raw_content review))"
    and "review_rating review = Inr (rating_val review)"
proof -
  obtain c where c: "review_content review = Inr c"
    using assms review_content_ok [of review] unfolding wf_review_def by blast
  obtain t where t: "review_title review = Inr t"
    using assms review_title_ok [of review] unfolding wf_review_def by blast
  obtain r where r: "review_rating review = Inr r"
    using assms review_rating_ok [of review] unfolding wf_review_def by blast
  from c obtain rc where rc: "label_of review ''content'' (JStr []) = Inr (JStr rc)"
      "c = str_lower rc"
    by (rule review_content_cases)
  from t obtain rt where rt: "label_of review ''title'' (JStr []) = Inr (JStr rt)"
      "t = str_lower rt"
    by (rule review_title_cases)
  show "label_of review ''title'' (JStr []) = Inr (JStr (raw_title review))"
    using rt by (simp add: raw_title_def)
  show "label_of review ''content'' (JStr []) = Inr (JStr (raw_content review))"
    using rc by (simp add: raw_content_def)
  show "review_title review = Inr (str_lower (raw_title review))"
    using t rt by (simp add: raw_title_def)
  show "review_content review = Inr (str_lower (raw_content review))"
    using c rc by (simp add: raw_content_def)
  show "review_rating review = Inr (rating_val review)"
    using r by (simp add: rating_val_def)
qed

lemma analyze_review_wf:
  assumes "wf_review review"
  shows "\<exists>b'. analyze_review b review = Inr b' \<and>
           complaints b' =
             complaints b @ map complaint_of (filter (\<lambda>r. rating_val r \<le> 3) [review]) \<and>
           features_requested b' =
             features_requested b @
             map text_of (filter (\<lambda>r. any_keyword_in feature_keywords (search_text r)) [review]) \<and>
           positive_features b' =
             positive_features b @
             map text_of
               (filter (\<lambda>r. 4 \<le> rating_val r \<and>
                           any_keyword_in positive_keywords (search_text r)) [review])"
  using wf_review_fields [OF assms]
  by (simp add: analyze_review_def Let_def complaint_of_def text_of_def search_text_def
      full_text_def complaint_record_def text_record_def)

lemma analyze_loop_wf:
  assumes "\<forall>r\<in>set reviews. wf_review r"
  shows "\<exists>b'. analyze_loop reviews b = Inr b' \<and>
           complaints b' =
             complaints b @ map complaint_of (filter (\<lambda>r. rating_val r \<le> 3) reviews) \<and>
           features_requested b' =
             features_requested b @
             map text_of (filter (\<lambda>r. any_keyword_in feature_keywords (search_text r)) reviews) \<and>
           positive_features b' =
             positive_features b @
             map text_of
               (filter (\<lambda>r. 4 \<le> rating_val r \<and>
                           any_keyword_in positive_keywords (search_text r)) reviews)"
  using assms
proof (induction reviews arbitrary: b)
  case Nil
  then show ?case by simp
next
  case (Cons x xs)
  then have wf: "wf_review x" and rest: "\<forall>r\<in>set xs. wf_review r"
    by simp_all
  from analyze_review_wf [OF wf, of b] obtain b1 where
    b1: "analyze_review b x = Inr b1" and
    c1: "complaints b1 =
           complaints b @ map complaint_of (filter (\<lambda>r. rating_val r \<le> 3) [x])" and
    f1: "features_requested b1 =
           features_requested b @
           map text_of (filter (\<lambda>r. any_keyword_in feature_keywords (search_text r)) [x])" and
    p1: "positive_features b1 =
           positive_features b @
           map text_of
             (filter (\<lambda>r. 4 \<le> rating_val r \<and>
                         any_keyword_in positive_keywords (search_text r)) [x])"
    by blast
  from Cons.IH [OF rest, of b1] obtain b' where
    b': "analyze_loop xs b1 = Inr b'" and
    c': "complaints b' =
           complaints b1 @ map complaint_of (filter (\<lambda>r. rating_val r \<le> 3) xs)" and
    f': "features_requested b' =
           features_requested b1 @
           map text_of (filter (\<lambda>r. any_keyword_in feature_keywords (search_text r)) xs)" and
    p': "positive_features b' =
           positive_features b1 @
           map text_of
             (filter (\<lambda>r. 4 \<le> rating_val r \<and>
                         any_keyword_in positive_keywords (search_text r)) xs)"
    by blast
  have "analyze_loop (x # xs) b = Inr b'"
    using b1 b' by simp
  moreover have "complaints b' =
      complaints b @ map complaint_of (filter (\<lambda>r. rating_val r \<le> 3) (x # xs))"
    unfolding c' c1 by simp
  moreover have "features_requested b' =
      features_requested b @
      map text_of (filter (\<lambda>r. any_keyword_in feature_keywords (search_text r)) (x # xs))"
    unfolding f' f1 by simp
  moreover have "positive_features b' =
      positive_features b @
      map text_of
        (filter (\<lambda>r. 4 \<le> rating_val r \<and>
                    any_keyword_in positive_keywords (search_text r)) (x # xs))"
    unfolding p' p1 by simp
  ultimately show ?case by blast
qed

text \<open>
  On reviews it accepts, \<^verbatim>\<open>analyze_reviews\<close> returns the three buckets, each the records
  of the reviews that pass its test, in the order of the reviews.
\<close>

lemma analyze_reviews_wf:
  assumes "\<forall>r\<in>set reviews. wf_review r"
  shows "analyze_reviews reviews =
           Inr (map complaint_of (filter (\<lambda>r. rating_val r \<le> 3) reviews),
                map text_of
                  (filter (\<lambda>r. any_keyword_in feature_keywords (search_text r)) reviews),
                map text_of
                  (filter (\<lambda>r. 4 \<le> rating_val r \<and>
                              any_keyword_in positive_keywords (search_text r)) reviews))"
proof -
  from analyze_loop_wf [OF assms,
      of "\<lparr>complaints = [], features_requested = [], positive_features = []\<rparr>"]
  obtain b' where
    "analyze_loop reviews
       \<lparr>complaints = [], features_requested = [], positive_features = []\<rparr> = Inr b'"
    "complaints b' = map complaint_of (filter (\<lambda>r. rating_val r \<le> 3) reviews)"
    "features_requested b' =
       map text_of (filter (\<lambda>r. any_keyword_in feature_keywords (search_text r)) reviews)"
    "positive_features b' =
       map text_of
         (filter (\<lambda>r. 4 \<le> rating_val r \<and>
                     any_keyword_in positive_keywords (search_text r)) reviews)"
    by auto
  then show ?thesis by (simp add: analyze_reviews_def)
qed

lemma wf_examples:
  "wf_review low_rated_review" "wf_review praising_review" "wf_review wishing_review"
  "wf_review shouting_review" "wf_review (JObj [])"
  by code_simp+

subsection \<open>A review of 500 capital letters\<close>







subsection \<open>Claims about the classifier\<close>

text \<open>
  C2, as the code has it. \<^verbatim>\<open>analyze_reviews\<close> returns exactly when every review is a
  dictionary in which each of \<^verbatim>\<open>content\<close>, \<^verbatim>\<open>title\<close> and \<^verbatim>\<open>im:rating\<close> is absent or a
  dictionary whose \<^verbatim>\<open>label\<close> is absent or well-typed (a string for the two texts, a
  value \<^verbatim>\<open>int()\<close> accepts for the rating). Only absence is defaulted: an absent
  content or title reads as the empty text, an absent rating as 0. Any other record
  raises and ends the call.
\<close>

theorem analyze_reviews_total_on_missing_fields:
  "((\<exists>cs fs ps. analyze_reviews reviews = Inr (cs, fs, ps)) \<longleftrightarrow>
      (\<forall>r\<in>set reviews. wf_review r)) \<and>
   (map_of kv ''content'' = None \<longrightarrow> review_content (JObj kv) = Inr []) \<and>
   (map_of kv ''title'' = None \<longrightarrow> review_title (JObj kv) = Inr []) \<and>
   (map_of kv ''im:rating'' = None \<longrightarrow> review_rating (JObj kv) = Inr 0)"
  using analyze_reviews_ok review_content_missing review_title_missing review_rating_missing
  by blast

theorem analyze_reviews_total_on_missing_fields_witness:
  "wf_review (JObj []) \<and> wf_review low_rated_review \<and>
   (\<exists>cs fs ps. analyze_reviews [JObj [], low_rated_review] = Inr (cs, fs, ps)) \<and>
   map_of [] ''im:rating'' = (None :: json option) \<and> review_rating (JObj []) = Inr 0 \<and>
   review_content (JObj []) = Inr [] \<and> review_title (JObj []) = Inr []"
proof -
  have wf: "wf_review (JObj [])" "wf_review low_rated_review"
    by (rule wf_examples)+
  show ?thesis
    using wf analyze_reviews_total_on_missing_fields [of "[JObj [], low_rated_review]" "[]"]
    by simp
qed

text \<open>
  C2 as stated fails: a rating label that is not a number is not read as 0, the call
  raises \<^verbatim>\<open>ValueError\<close>; a content that is \<^verbatim>\<open>null\<close> raises \<^verbatim>\<open>AttributeError\<close>.
\<close>

theorem malformed_review_raises:
  "analyze_reviews [unparsable_rating_review] = Inl ValueError \<and>
   analyze_reviews [JObj [(''content'', JNull)]] = Inl AttributeError"
  by code_simp




text \<open>
  C6, as the code has it. When \<^verbatim>\<open>analyze_reviews\<close> accepts its reviews, it returns,
  and the complaints it returns are, in the order of the reviews, the records of
  exactly the reviews whose rating is at most 3; the rating is \<^verbatim>\<open>int\<close> of the label
  under \<^verbatim>\<open>im:rating\<close>, and 0 when that field is absent. Title and content play no part
  in the test.
\<close>

theorem complaints_are_reviews_rated_at_most_3:
  assumes "\<forall>r\<in>set reviews. wf_review r"
  shows "\<exists>cs fs ps.
           analyze_reviews reviews = Inr (cs, fs, ps) \<and>
           cs = map (\<lambda>r. JObj [(''rating'', JNum (of_int (rating_val r))),
                                (''title'', JStr (raw_title r)),
                                (''snippet'', JStr (take 200 (str_lower (raw_content r))))])
                    (filter (\<lambda>r. rating_val r \<le> 3) reviews) \<and>
           (\<forall>r\<in>set reviews. review_rating r = Inr (rating_val r)) \<and>
           (\<forall>kv. JObj kv \<in> set reviews \<and> map_of kv ''im:rating'' = None \<longrightarrow>
                 rating_val (JObj kv) = 0)"
proof -
  have run: "analyze_reviews reviews =
           Inr (map complaint_of (filter (\<lambda>r. rating_val r \<le> 3) reviews),
                map text_of
                  (filter (\<lambda>r. any_keyword_in feature_keywords (search_text r)) reviews),
                map text_of
                  (filter (\<lambda>r. 4 \<le> rating_val r \<and>
                              any_keyword_in positive_keywords (search_text r)) reviews))"
    using assms by (rule analyze_reviews_wf)
  have shape: "map complaint_of (filter (\<lambda>r. rating_val r \<le> 3) reviews) =
        map (\<lambda>r. JObj [(''rating'', JNum (of_int (rating_val r))),
                        (''title'', JStr (raw_title r)),
                        (''snippet'', JStr (take 200 (str_lower (raw_content r))))])
            (filter (\<lambda>r. rating_val r \<le> 3) reviews)"
    by (simp only: complaint_of_def [abs_def])
  have read: "\<forall>r\<in>set reviews. review_rating r = Inr (rating_val r)"
    using assms wf_review_fields(5) by simp
  have dflt: "\<forall>kv. JObj kv \<in> set reviews \<and> map_of kv ''im:rating'' = None \<longrightarrow>
                 rating_val (JObj kv) = 0"
    by (simp add: rating_val_def review_rating_missing)
  show ?thesis
    by (intro exI conjI) (rule run, rule shape, rule read, rule dflt)
qed

theorem complaints_are_reviews_rated_at_most_3_witness:
  "wf_review low_rated_review \<and> wf_review praising_review \<and> wf_review (JObj []) \<and>
   analyze_reviews [low_rated_review, praising_review, JObj []] =
     Inr ([JObj [(''rating'', JNum 2), (''title'', JStr ''Love the idea''),
                 (''snippet'', JStr ''crashes on start'')],
           JObj [(''rating'', JNum 0), (''title'', JStr []), (''snippet'', JStr [])]],
          [],
          [JObj [(''rating'', JNum 5), (''text'', JStr ''works every time'')]]) \<and>
   review_rating low_rated_review = Inr (rating_val low_rated_review) \<and>
   rating_val low_rated_review = 2 \<and> rating_val praising_review = 5 \<and>
   rating_val (JObj []) = 0"
proof -
  have wf: "wf_review low_rated_review" "wf_review praising_review" "wf_review (JObj [])"
    by (rule wf_examples)+
  have run: "analyze_reviews [low_rated_review, praising_review, JObj []] =
     Inr ([JObj [(''rating'', JNum 2), (''title'', JStr ''Love the idea''),
                 (''snippet'', JStr ''crashes on start'')],
           JObj [(''rating'', JNum 0), (''title'', JStr []), (''snippet'', JStr [])]],
          [],
          [JObj [(''rating'', JNum 5), (''text'', JStr ''works every time'')]])"
    by code_simp
  have vals: "rating_val low_rated_review = 2" "rating_val praising_review = 5"
    "rating_val (JObj []) = 0"
    by code_simp+
  have "\<forall>r\<in>set [low_rated_review, praising_review, JObj []]. wf_review r"
    using wf by simp
  from complaints_are_reviews_rated_at_most_3 [OF this] wf run vals show ?thesis
    by simp
qed

text \<open>
  C6 as stated fails where the classifier raises: a review with the rating 2 and a
  \<^verbatim>\<open>null\<close> content has a parsed rating of at most 3 and reaches no bucket, and a
  well-formed low-rated review beside a malformed one reaches none either.
\<close>

theorem low_rated_review_without_bucket:
  "review_rating null_content_review = Inr 2 \<and>
   analyze_reviews [null_content_review] = Inl AttributeError \<and>
   review_rating low_rated_review = Inr 2 \<and>
   analyze_reviews [low_rated_review, unparsable_rating_review] = Inl ValueError"
  by code_simp

text \<open>
  C7, as the code has it. When \<^verbatim>\<open>analyze_reviews\<close> accepts its reviews, it returns,
  and the positive mentions it returns are, in the order of the reviews, the records
  of exactly the reviews whose rating is at least 4 and whose search text contains one
  of the seven positive keywords. The search text is the lower-cased title, one
  space, and the lower-cased content.
\<close>

theorem positive_mentions_are_high_rated_keyword_reviews:
  assumes "\<forall>r\<in>set reviews. wf_review r"
  shows "\<exists>cs fs ps.
           analyze_reviews reviews = Inr (cs, fs, ps) \<and>
           ps = map (\<lambda>r. JObj [(''rating'', JNum (of_int (rating_val r))),
                                (''text'', JStr (take 200 (str_lower (raw_content r))))])
                    (filter (\<lambda>r. 4 \<le> rating_val r \<and>
                       (\<exists>k\<in>{''love'', ''great'', ''awesome'', ''best'', ''perfect'',
                             ''amazing'', ''excellent''}.
                          sublist k (str_lower (raw_title r) @ '' '' @
                                     str_lower (raw_content r)))) reviews) \<and>
           (\<forall>r\<in>set reviews.
              review_rating r = Inr (rating_val r) \<and>
              label_of r ''title'' (JStr []) = Inr (JStr (raw_title r)) \<and>
              label_of r ''content'' (JStr []) = Inr (JStr (raw_content r)))"
proof -
  have run: "analyze_reviews reviews =
           Inr (map complaint_of (filter (\<lambda>r. rating_val r \<le> 3) reviews),
                map text_of
                  (filter (\<lambda>r. any_keyword_in feature_keywords (search_text r)) reviews),
                map text_of
                  (filter (\<lambda>r. 4 \<le> rating_val r \<and>
                              any_keyword_in positive_keywords (search_text r)) reviews))"
    using assms by (rule analyze_reviews_wf)
  have shape: "map text_of
                  (filter (\<lambda>r. 4 \<le> rating_val r \<and>
                              any_keyword_in positive_keywords (search_text r)) reviews) =
        map (\<lambda>r. JObj [(''rating'', JNum (of_int (rating_val r))),
                        (''text'', JStr (take 200 (str_lower (raw_content r))))])
            (filter (\<lambda>r. 4 \<le> rating_val r \<and>
                       (\<exists>k\<in>{''love'', ''great'', ''awesome'', ''best'', ''perfect'',
                             ''amazing'', ''excellent''}.
                          sublist k (str_lower (raw_title r) @ '' '' @
                                     str_lower (raw_content r)))) reviews)"
    by (simp only: text_of_def [abs_def] any_positive_keyword search_text_def)
  have read: "\<forall>r\<in>set reviews.
              review_rating r = Inr (rating_val r) \<and>
              label_of r ''title'' (JStr []) = Inr (JStr (raw_title r)) \<and>
              label_of r ''content'' (JStr []) = Inr (JStr (raw_content r))"
    using assms wf_review_fields by simp
  show ?thesis
    by (intro exI conjI) (rule run, rule shape, rule read)
qed

theorem positive_mentions_are_high_rated_keyword_reviews_witness:
  "wf_review low_rated_review \<and> wf_review praising_review \<and> wf_review wishing_review \<and>
   analyze_reviews [low_rated_review, praising_review, wishing_review] =
     Inr ([JObj [(''rating'', JNum 2), (''title'', JStr ''Love the idea''),
                 (''snippet'', JStr ''crashes on start'')]],
          [JObj [(''rating'', JNum 4), (''text'', JStr ''i wish it had zoom'')]],
          [JObj [(''rating'', JNum 5), (''text'', JStr ''works every time'')]]) \<and>
   label_of praising_review ''title'' (JStr []) = Inr (JStr (raw_title praising_review)) \<and>
   raw_title praising_review = ''GREAT app''"
proof -
  have wf: "wf_review low_rated_review" "wf_review praising_review" "wf_review wishing_review"
    by (rule wf_examples)+
  have run: "analyze_reviews [low_rated_review, praising_review, wishing_review] =
     Inr ([JObj [(''rating'', JNum 2), (''title'', JStr ''Love the idea''),
                 (''snippet'', JStr ''crashes on start'')]],
          [JObj [(''rating'', JNum 4), (''text'', JStr ''i wish it had zoom'')]],
          [JObj [(''rating'', JNum 5), (''text'', JStr ''works every time'')]])"
    by code_simp
  have t: "raw_title praising_review = ''GREAT app''"
    by code_simp
  have "\<forall>r\<in>set [low_rated_review, praising_review, wishing_review]. wf_review r"
    using wf by simp
  from positive_mentions_are_high_rated_keyword_reviews [OF this] wf run t show ?thesis
    by simp
qed

text \<open>
  C7 as stated fails: with the title \<^verbatim>\<open>lo\<close>, the content \<^verbatim>\<open>ve\<close> and the rating 5 the
  concatenation of title and content contains \<^verbatim>\<open>love\<close>, yet the review is no positive
  mention, because the code searches the two texts joined by a space.
\<close>

theorem split_keyword_is_no_positive_mention:
  "analyze_reviews [split_love_review] = Inr ([], [], []) \<and>
   review_rating split_love_review = Inr 5 \<and>
   raw_title split_love_review = ''lo'' \<and> raw_content split_love_review = ''ve'' \<and>
   sublist ''love'' (str_lower ''lo'' @ str_lower ''ve'')"
  by code_simp

text \<open>
  C8, as the code has it. When \<^verbatim>\<open>analyze_reviews\<close> accepts its reviews, it returns,
  and the feature requests it returns are, in the order of the reviews, the records
  of exactly the reviews whose search text contains one of the eight feature
  keywords, whatever their rating. The search text is the lower-cased title, one
  space, and the lower-cased content.
\<close>

theorem feature_requests_are_keyword_reviews:
  assumes "\<forall>r\<in>set reviews. wf_review r"
  shows "\<exists>cs fs ps.
           analyze_reviews reviews = Inr (cs, fs, ps) \<and>
           fs = map (\<lambda>r. JObj [(''rating'', JNum (of_int (rating_val r))),
                                (''text'', JStr (take 200 (str_lower (raw_content r))))])
                    (filter (\<lambda>r.
                       \<exists>k\<in>{''wish'', ''need'', ''should'', ''add'', ''feature'', ''want'',
                            ''would like'', ''missing''}.
                          sublist k (str_lower (raw_title r) @ '' '' @
                                     str_lower (raw_content r))) reviews) \<and>
           (\<forall>r\<in>set reviews.
              review_rating r = Inr (rating_val r) \<and>
              label_of r ''title'' (JStr []) = Inr (JStr (raw_title r)) \<and>
              label_of r ''content'' (JStr []) = Inr (JStr (raw_content r)))"
proof -
  have run: "analyze_reviews reviews =
           Inr (map complaint_of (filter (\<lambda>r. rating_val r \<le> 3) reviews),
                map text_of
                  (filter (\<lambda>r. any_keyword_in feature_keywords (search_text r)) reviews),
                map text_of
                  (filter (\<lambda>r. 4 \<le> rating_val r \<and>
                              any_keyword_in positive_keywords (search_text r)) reviews))"
    using assms by (rule analyze_reviews_wf)
  have shape: "map text_of
                  (filter (\<lambda>r. any_keyword_in feature_keywords (search_text r)) reviews) =
        map (\<lambda>r. JObj [(''rating'', JNum (of_int (rating_val r))),
                        (''text'', JStr (take 200 (str_lower (raw_content r))))])
            (filter (\<lambda>r.
                       \<exists>k\<in>{''wish'', ''need'', ''should'', ''add'', ''feature'', ''want'',
                            ''would like'', ''missing''}.
                          sublist k (str_lower (raw_title r) @ '' '' @
                                     str_lower (raw_content r))) reviews)"
    by (simp only: text_of_def [abs_def] any_feature_keyword search_text_def)
  have read: "\<forall>r\<in>set reviews.
              review_rating r = Inr (rating_val r) \<and>
              label_of r ''title'' (JStr []) = Inr (JStr (raw_title r)) \<and>
              label_of r ''content'' (JStr []) = Inr (JStr (raw_content r))"
    using assms wf_review_fields by simp
  show ?thesis
    by (intro exI conjI) (rule run, rule shape, rule read)
qed

theorem feature_requests_are_keyword_reviews_witness:
  "wf_review wishing_review \<and> wf_review would_like_review \<and> wf_review praising_review \<and>
   analyze_reviews [wishing_review, would_like_review, praising_review] =
     Inr ([],
          [JObj [(''rating'', JNum 4), (''text'', JStr ''i wish it had zoom'')],
           JObj [(''rating'', JNum 5), (''text'', JStr ''like dark mode'')]],
          [JObj [(''rating'', JNum 5), (''text'', JStr ''works every time'')]]) \<and>
   label_of wishing_review ''content'' (JStr []) = Inr (JStr (raw_content wishing_review)) \<and>
   raw_content wishing_review = ''I Wish it had zoom''"
proof -
  have wf: "wf_review wishing_review" "wf_review would_like_review" "wf_review praising_review"
    by code_simp+
  have run: "analyze_reviews [wishing_review, would_like_review, praising_review] =
     Inr ([],
          [JObj [(''rating'', JNum 4), (''text'', JStr ''i wish it had zoom'')],
           JObj [(''rating'', JNum 5), (''text'', JStr ''like dark mode'')]],
          [JObj [(''rating'', JNum 5), (''text'', JStr ''works every time'')]])"
    by code_simp
  have t: "raw_content wishing_review = ''I Wish it had zoom''"
    by code_simp
  have "\<forall>r\<in>set [wishing_review, would_like_review, praising_review]. wf_review r"
    using wf by simp
  from feature_requests_are_keyword_reviews [OF this] wf run t show ?thesis
    by simp
qed

text \<open>
  C8 as stated fails: with the title \<^verbatim>\<open>would\<close> and the content \<^verbatim>\<open>like dark mode\<close> the
  concatenation of title and content contains none of the keywords, yet the review is
  a feature request, through the space the code puts between the two; and a review
  that contains \<^verbatim>\<open>wish\<close> and has the rating label \<^verbatim>\<open>five\<close> reaches no bucket, the call
  raises.
\<close>

theorem feature_request_through_the_space:
  "analyze_reviews [would_like_review] =
     Inr ([], [JObj [(''rating'', JNum 5), (''text'', JStr ''like dark mode'')]], []) \<and>
   raw_title would_like_review = ''would'' \<and>
   raw_content would_like_review = ''like dark mode'' \<and>
   \<not> any_keyword_in feature_keywords (str_lower ''would'' @ str_lower ''like dark mode'') \<and>
   sublist ''wish'' (str_lower ''I wish it had zoom'') \<and>
   analyze_reviews [wish_unparsable_review] = Inl ValueError"
  by code_simp

section \<open>Ranking: results\<close>

subsection \<open>Insertion and the sort when no comparison raises\<close>

lemma insert_by_pure:
  assumes "\<forall>y\<in>set ys. lt (fst x) (fst y) = Inr (ord x < ord y)"
  shows "insert_by lt x ys = Inr (ins_after ord x ys)"
  using assms by (induction ys) simp_all

lemma set_ins_after: "set (ins_after ord x ys) = insert x (set ys)"
  by (induction ys) auto

lemma mset_ins_after: "mset (ins_after ord x ys) = add_mset x (mset ys)"
  by (induction ys) simp_all

lemma sorted_ins_after:
  "sorted (map ord ys) \<Longrightarrow> sorted (map ord (ins_after ord x ys))"
  by (induction ys) (auto simp: set_ins_after)

lemma filter_ins_after:
  assumes "sorted (map ord ys)"
  shows "filter (\<lambda>y. ord y = k) (ins_after ord x ys) =
         filter (\<lambda>y. ord y = k) ys @ (if ord x = k then [x] else [])"
  using assms
proof (induction ys)
  case Nil
  then show ?case by simp
next
  case (Cons y ys)
  show ?case
  proof (cases "ord x < ord y")
    case True
    have "\<forall>z\<in>set (y # ys). ord x < ord z"
      using True Cons.prems by auto
    then have "ord x = k \<Longrightarrow> filter (\<lambda>z. ord z = k) (y # ys) = []"
      by (auto simp: filter_empty_conv)
    with True show ?thesis by auto
  next
    case False
    with Cons show ?thesis by simp
  qed
qed

lemma sort_by_pure:
  assumes "\<forall>x\<in>set xs \<union> set acc. \<forall>y\<in>set xs \<union> set acc.
             lt (fst x) (fst y) = Inr (ord x < ord y)"
  shows "sort_by lt xs acc = Inr (foldl (\<lambda>a x. ins_after ord x a) acc xs)"
  using assms
proof (induction xs arbitrary: acc)
  case Nil
  then show ?case by simp
next
  case (Cons x xs)
  have step: "insert_by lt x acc = Inr (ins_after ord x acc)"
    using Cons.prems by (intro insert_by_pure) simp
  have "sort_by lt xs (ins_after ord x acc) =
        Inr (foldl (\<lambda>a x. ins_after ord x a) (ins_after ord x acc) xs)"
    using Cons.prems by (intro Cons.IH) (auto simp: set_ins_after)
  with step show ?case by simp
qed

lemma sorted_foldl_ins:
  "sorted (map ord acc) \<Longrightarrow> sorted (map ord (foldl (\<lambda>a x. ins_after ord x a) acc xs))"
  by (induction xs arbitrary: acc) (simp_all add: sorted_ins_after)

lemma mset_foldl_ins:
  "mset (foldl (\<lambda>a x. ins_after ord x a) acc xs) = mset acc + mset xs"
  by (induction xs arbitrary: acc) (simp_all add: mset_ins_after)

lemma filter_foldl_ins:
  "sorted (map ord acc) \<Longrightarrow>
     filter (\<lambda>y. ord y = k) (foldl (\<lambda>a x. ins_after ord x a) acc xs) =
     filter (\<lambda>y. ord y = k) acc @ filter (\<lambda>y. ord y = k) xs"
  by (induction xs arbitrary: acc) (simp_all add: sorted_ins_after filter_ins_after)

lemma keyed_pure:
  "\<forall>x\<in>set xs. f x = Inr (g x) \<Longrightarrow> keyed f xs = Inr (map (\<lambda>x. (g x, x)) xs)"
  by (induction xs) simp_all

text \<open>
  The call \<^verbatim>\<open>sorted(xs, key=f, reverse=True)\<close> when every key is defined and
  \<^verbatim>\<open><\<close> on the keys is the order of \<open>K\<close>: the result is a permutation, descends by
  \<open>K\<close>, and keeps the elements of equal \<open>K\<close> in their order.
\<close>

lemma sorted_reverse_pure:
  fixes K :: "'a \<Rightarrow> 'o::linorder"
  assumes keys: "\<forall>x\<in>set xs. f x = Inr (g x)"
    and lt: "\<forall>x\<in>set xs. \<forall>y\<in>set xs. lt (g x) (g y) = Inr (K x < K y)"
  shows "\<exists>ys. sorted_reverse lt f xs = Inr ys \<and> mset ys = mset xs \<and>
              sorted_wrt (\<lambda>a b. K b \<le> K a) ys \<and>
              (\<forall>k. filter (\<lambda>x. K x = k) ys = filter (\<lambda>x. K x = k) xs)"
proof -
  let ?ks = "map (\<lambda>x. (g x, x)) xs"
  let ?ord = "\<lambda>p :: 'b \<times> 'a. K (snd p)"
  let ?S = "foldl (\<lambda>a x. ins_after ?ord x a) [] (rev ?ks)"
  let ?ys = "map snd (rev ?S)"
  have k: "keyed f xs = Inr ?ks"
    using keys by (rule keyed_pure)
  have "\<forall>p\<in>set (rev ?ks) \<union> set []. \<forall>q\<in>set (rev ?ks) \<union> set [].
          lt (fst p) (fst q) = Inr (?ord p < ?ord q)"
    using lt by auto
  then have s: "sort_by lt (rev ?ks) [] = Inr ?S"
    by (rule sort_by_pure)
  have run: "sorted_reverse lt f xs = Inr ?ys"
    by (simp add: sorted_reverse_def k s)
  have "mset ?S = mset (rev ?ks)"
    by (simp add: mset_foldl_ins)
  then have "mset ?ys = image_mset snd (mset ?ks)"
    by simp
  then have perm: "mset ?ys = mset xs"
    by (simp add: image_mset.compositionality comp_def)
  have "sorted (map ?ord ?S)"
    by (rule sorted_foldl_ins) simp
  then have "sorted_wrt (\<lambda>p q. ?ord p \<le> ?ord q) ?S"
    by (simp add: sorted_map)
  then have "sorted_wrt (\<lambda>p q. ?ord q \<le> ?ord p) (rev ?S)"
    by (simp add: sorted_wrt_rev)
  then have desc: "sorted_wrt (\<lambda>a b. K b \<le> K a) ?ys"
    by (simp add: sorted_wrt_map)
  have stable: "filter (\<lambda>x. K x = k) ?ys = filter (\<lambda>x. K x = k) xs" for k
  proof -
    have "filter (\<lambda>p. ?ord p = k) ?S = filter (\<lambda>p. ?ord p = k) (rev ?ks)"
      using filter_foldl_ins [of ?ord "[]" k "rev ?ks"] by simp
    then have "filter (\<lambda>p. ?ord p = k) (rev ?S) = filter (\<lambda>p. ?ord p = k) ?ks"
      by (simp add: rev_filter [symmetric])
    then have "map snd (filter (\<lambda>p. ?ord p = k) (rev ?S)) =
               map snd (filter (\<lambda>p. ?ord p = k) ?ks)"
      by simp
    then show ?thesis
      by (simp add: filter_map comp_def)
  qed
  from run perm desc stable show ?thesis by blast
qed

subsection \<open>Comparison of numeric keys\<close>

lemma tuple_lt_numbers:
  "tuple_lt (JNum a, JNum b) (JNum c, JNum d) = Inr ((a, b) < (c, d))"
  by (auto simp: tuple_lt_def less_prod_def)

lemma ranks_before_iff:
  "ranks_before a b \<longleftrightarrow>
     (rating_of b, rating_count_of b) \<le> (rating_of a, rating_count_of a)"
  by (auto simp: ranks_before_def less_eq_prod_def)

section \<open>Collection: results\<close>

subsection \<open>First occurrences\<close>

lemma set_first_by: "set (first_by k xs) \<subseteq> set xs"
  by (induction k xs rule: first_by.induct) auto

lemma keys_first_by: "k ` set (first_by k xs) = k ` set xs"
proof (induction k xs rule: first_by.induct)
  case (1 k)
  then show ?case by simp
next
  case (2 k x xs)
  have "k ` set (x # xs) = insert (k x) (k ` set (filter (\<lambda>y. k y \<noteq> k x) xs))"
    by auto
  with 2 show ?case by simp
qed

lemma distinct_first_by: "distinct (map k (first_by k xs))"
proof (induction k xs rule: first_by.induct)
  case (1 k)
  then show ?case by simp
next
  case (2 k x xs)
  have "k x \<notin> k ` set (first_by k (filter (\<lambda>y. k y \<noteq> k x) xs))"
    using set_first_by [of k "filter (\<lambda>y. k y \<noteq> k x) xs"] by auto
  with 2 show ?case by simp
qed

lemma first_by_is_first:
  "x \<in> set (first_by k xs) \<Longrightarrow> List.find (\<lambda>y. k y = k x) xs = Some x"
proof (induction k xs rule: first_by.induct)
  case (1 k)
  then show ?case by simp
next
  case (2 k z zs)
  show ?case
  proof (cases "x = z")
    case True
    then show ?thesis by simp
  next
    case False
    with "2.prems" have mem: "x \<in> set (first_by k (filter (\<lambda>y. k y \<noteq> k z) zs))"
      by simp
    then have neq: "k x \<noteq> k z"
      using set_first_by [of k "filter (\<lambda>y. k y \<noteq> k z) zs"] by auto
    have "List.find (\<lambda>y. k y = k x) (filter (\<lambda>y. k y \<noteq> k z) zs) = Some x"
      using "2.IH" mem by simp
    moreover have "List.find (\<lambda>y. k y = k x) (filter (\<lambda>y. k y \<noteq> k z) zs) =
                   List.find (\<lambda>y. k y = k x) zs"
      using neq by (induction zs) auto
    ultimately show ?thesis using neq by simp
  qed
qed

lemma find_filter_implied:
  "(\<And>x. P x \<Longrightarrow> Q x) \<Longrightarrow> List.find P (filter Q xs) = List.find P xs"
  by (induction xs) auto

lemma fresh_Nil: "fresh seen [] = []"
  by (simp add: fresh_def)

lemma fresh_Cons:
  "fresh seen (a # apps) =
     (case track_key a of
        None \<Rightarrow> fresh seen apps
      | Some k \<Rightarrow> if k \<in> seen then fresh seen apps else a # fresh (insert k seen) apps)"
proof (cases "track_key a")
  case None
  then show ?thesis by (simp add: fresh_def)
next
  case (Some k)
  have "filter (\<lambda>y. track_key y \<noteq> Some k)
          (filter (\<lambda>a. case track_key a of None \<Rightarrow> False | Some k \<Rightarrow> k \<notin> seen) apps) =
        filter (\<lambda>a. case track_key a of None \<Rightarrow> False | Some k' \<Rightarrow> k' \<notin> insert k seen) apps"
    by (induction apps) (auto split: option.splits)
  with Some show ?thesis by (simp add: fresh_def)
qed

lemma keys_of_Cons:
  "keys_of (a # apps) = (case track_key a of None \<Rightarrow> {} | Some k \<Rightarrow> {k}) \<union> keys_of apps"
  by (auto simp: keys_of_def split: option.splits)

lemma keys_of_append: "keys_of (xs @ ys) = keys_of xs \<union> keys_of ys"
  by (auto simp: keys_of_def)

lemma fresh_append:
  "fresh seen (xs @ ys) = fresh seen xs @ fresh (seen \<union> keys_of xs) ys"
proof (induction xs arbitrary: seen)
  case Nil
  then show ?case by (simp add: fresh_Nil keys_of_def)
next
  case (Cons a xs)
  show ?case
  proof (cases "track_key a")
    case None
    with Cons [of seen] show ?thesis by (simp add: fresh_Cons keys_of_Cons)
  next
    case (Some k)
    show ?thesis
    proof (cases "k \<in> seen")
      case True
      then have "seen \<union> keys_of (a # xs) = seen \<union> keys_of xs"
        using Some by (auto simp: keys_of_Cons)
      with True Some Cons [of seen] show ?thesis by (simp add: fresh_Cons)
    next
      case False
      have "seen \<union> keys_of (a # xs) = insert k seen \<union> keys_of xs"
        using Some by (auto simp: keys_of_Cons)
      with False Some Cons [of "insert k seen"] show ?thesis by (simp add: fresh_Cons)
    qed
  qed
qed

subsection \<open>The loops\<close>

lemma collect_app_cases:
  assumes "collect_app st app = Inr st'"
  shows "case track_key app of
           None \<Rightarrow> st' = st
         | Some k \<Rightarrow>
             if k \<in> seen_apps st then st' = st
             else \<exists>c. competitor_of app = Inr c \<and>
                      st' = \<lparr>seen_apps = insert k (seen_apps st),
                             competitors = competitors st @ [c]\<rparr>"
  using assms unfolding collect_app_def track_key_def dict_get_def
  by (auto split: json.splits sum.splits option.splits if_splits)

lemma collect_app_inv:
  assumes "collect_app st app = Inr st'"
  shows "seen_apps st' = seen_apps st \<union> keys_of [app] \<and>
         map Inr (competitors st') =
           map Inr (competitors st) @ map competitor_of (fresh (seen_apps st) [app])"
  using collect_app_cases [OF assms]
  by (auto simp: fresh_Cons fresh_Nil keys_of_Cons keys_of_def split: option.splits if_splits)

lemma collect_apps_inv:
  "collect_apps apps st = Inr st' \<Longrightarrow>
     seen_apps st' = seen_apps st \<union> keys_of apps \<and>
     map Inr (competitors st') =
       map Inr (competitors st) @ map competitor_of (fresh (seen_apps st) apps)"
proof (induction apps arbitrary: st)
  case Nil
  then show ?case by (simp add: fresh_Nil keys_of_def)
next
  case (Cons a apps)
  from Cons.prems obtain st1 where one: "collect_app st a = Inr st1"
    and rest: "collect_apps apps st1 = Inr st'"
    by (auto split: sum.splits)
  from collect_app_inv [OF one] Cons.IH [OF rest]
  show ?case
    using fresh_append [of "seen_apps st" "[a]" apps] keys_of_append [of "[a]" apps]
    by (simp add: Un_assoc)
qed

lemma collect_results_inv:
  assumes "collect_results st results = Inr st'"
  shows "seen_apps st' = seen_apps st \<union> keys_of (apps_of results) \<and>
         map Inr (competitors st') =
           map Inr (competitors st) @
           map competitor_of (fresh (seen_apps st) (apps_of results))"
proof (cases "\<exists>kv xs. results = JObj kv \<and> map_of kv ''results'' = Some (JArr xs) \<and> xs \<noteq> []")
  case True
  then obtain kv xs where r: "results = JObj kv" "map_of kv ''results'' = Some (JArr xs)"
      "xs \<noteq> []"
    by blast
  then have "kv \<noteq> []" by auto
  with r assms have "collect_apps xs st = Inr st'"
    by (simp add: collect_results_def dict_get_def get_or_def)
  moreover have "apps_of results = xs"
    using r by (simp add: apps_of_def)
  ultimately show ?thesis using collect_apps_inv by simp
next
  case False
  then have empty: "apps_of results = []"
    by (auto simp: apps_of_def split: json.splits option.splits)
  from False assms have "st' = st"
    unfolding collect_results_def dict_get_def get_or_def
    by (auto split: json.splits option.splits if_splits)
  with empty show ?thesis by (simp add: fresh_Nil keys_of_def)
qed

lemma collect_terms_inv:
  "collect_terms net terms st = Inr st' \<Longrightarrow>
     seen_apps st' = seen_apps st \<union> keys_of (raw_apps net terms) \<and>
     map Inr (competitors st') =
       map Inr (competitors st) @
       map competitor_of (fresh (seen_apps st) (raw_apps net terms))"
proof (induction terms arbitrary: st)
  case Nil
  then show ?case by (simp add: raw_apps_def fresh_Nil keys_of_def)
next
  case (Cons t ts)
  from Cons.prems obtain st1 where
    one: "collect_results st (fst (search_app_store net t)) = Inr st1" and
    rest: "collect_terms net ts st1 = Inr st'"
    by (auto split: sum.splits)
  have raw: "raw_apps net (t # ts) = apps_of (fst (search_app_store net t)) @ raw_apps net ts"
    by (simp add: raw_apps_def)
  from collect_results_inv [OF one] Cons.IH [OF rest]
  show ?case
    unfolding raw
    using fresh_append [of "seen_apps st" "apps_of (fst (search_app_store net t))"
        "raw_apps net ts"]
      keys_of_append [of "apps_of (fst (search_app_store net t))" "raw_apps net ts"]
    by (simp add: Un_assoc)
qed

lemma fresh_empty:
  "fresh {} apps = first_by track_key (filter (\<lambda>a. track_key a \<noteq> None) apps)"
proof -
  have "(\<lambda>a. case track_key a of None \<Rightarrow> False | Some k \<Rightarrow> k \<notin> {}) =
        (\<lambda>a. track_key a \<noteq> None)"
    by (auto split: option.splits)
  then show ?thesis by (simp add: fresh_def)
qed

section \<open>Claims about the collector\<close>

text \<open>
  C1 says that an app without a rating is ranked with the rating 0, so that the sort
  never raises. The code does not do so when a rated and an unrated app are both
  collected: the record stores \<^verbatim>\<open>'N/A'\<close> under \<^verbatim>\<open>rating\<close> for an app without
  \<^verbatim>\<open>averageUserRating\<close>, so the default 0 of \<^verbatim>\<open>x.get('rating', 0)\<close> in the sort key
  is never taken, the key holds the string, and comparing it with a number raises
  \<^verbatim>\<open>TypeError\<close>.
\<close>

theorem unrated_app_breaks_ranking:
  "main_competitors (answering [rated_app 1 ''Rated'' (9 / 2) 10, store_app 2 ''Unrated'']) =
     Inl TypeError \<and>
   competitor_of (store_app 2 ''Unrated'') =
     Inr (JObj [(''name'', JStr ''Unrated''), (''developer'', JNull),
                (''price'', JStr ''N/A''), (''rating'', JStr ''N/A''),
                (''rating_count'', JNum 0), (''version'', JStr ''N/A''),
                (''description_snippet'', JStr []), (''categories'', JArr [])]) \<and>
   rank_key (JObj [(''name'', JStr ''Unrated''), (''developer'', JNull),
                (''price'', JStr ''N/A''), (''rating'', JStr ''N/A''),
                (''rating_count'', JNum 0), (''version'', JStr ''N/A''),
                (''description_snippet'', JStr []), (''categories'', JArr [])]) =
     Inr (JStr ''N/A'', JNum 0)"
  by code_simp

text \<open>
  When the rating and the rating count of every competitor are numbers, the ranking
  returns the first 10 elements of a list that is a permutation of the competitors,
  descends by rating and then by rating count, and keeps competitors that agree on
  both in their order of insertion.
\<close>

lemma rank_competitors_numeric:
  assumes "\<forall>x\<in>set cs. numeric_keys x"
  shows "\<exists>ys. rank_competitors cs = Inr (take 10 ys) \<and> mset ys = mset cs \<and>
              sorted_wrt ranks_before ys \<and>
              (\<forall>r c. filter (\<lambda>x. rating_of x = r \<and> rating_count_of x = c) ys =
                     filter (\<lambda>x. rating_of x = r \<and> rating_count_of x = c) cs)"
proof -
  let ?g = "\<lambda>x. (JNum (rating_of x), JNum (rating_count_of x))"
  let ?K = "\<lambda>x. (rating_of x, rating_count_of x)"
  have keys: "\<forall>x\<in>set cs. rank_key x = Inr (?g x)"
    using assms by (simp add: numeric_keys_def)
  have lt: "\<forall>x\<in>set cs. \<forall>y\<in>set cs. tuple_lt (?g x) (?g y) = Inr (?K x < ?K y)"
    by (simp add: tuple_lt_numbers)
  from sorted_reverse_pure [where K = ?K, OF keys lt]
  obtain ys where run: "sorted_reverse tuple_lt rank_key cs = Inr ys"
    and perm: "mset ys = mset cs"
    and desc: "sorted_wrt (\<lambda>a b. ?K b \<le> ?K a) ys"
    and stable: "\<forall>k. filter (\<lambda>x. ?K x = k) ys = filter (\<lambda>x. ?K x = k) cs"
    by blast
  have r: "rank_competitors cs = Inr (take 10 ys)"
    by (simp add: rank_competitors_def run)
  have d: "sorted_wrt ranks_before ys"
    using desc by (simp add: ranks_before_iff [abs_def])
  have st: "filter (\<lambda>x. rating_of x = r \<and> rating_count_of x = c) ys =
            filter (\<lambda>x. rating_of x = r \<and> rating_count_of x = c) cs" for r c
    using stable [rule_format, of "(r, c)"] by simp
  from r perm d st show ?thesis by blast
qed


lemma rank_competitors_example:
  "rank_competitors [competitor ''app1'' (7 / 2) 100, competitor ''app2'' (24 / 5) 50,
                     competitor ''app3'' (24 / 5) 200] =
     Inr [competitor ''app3'' (24 / 5) 200, competitor ''app2'' (24 / 5) 50,
          competitor ''app1'' (7 / 2) 100]"
  by code_simp

text \<open>
  C4 says that for every sequence of competitors the final list is the first 10
  elements of the stable descending sort by rating and rating count. The code does
  not produce it for a sequence that holds a rated and an unrated competitor: the
  sort key of the unrated one is the pair of \<^verbatim>\<open>'N/A'\<close> and its rating count, the
  comparison of \<^verbatim>\<open>'N/A'\<close> with a number raises \<^verbatim>\<open>TypeError\<close>, and there is no final
  list. This is the slip of C1.
\<close>

theorem ranking_raises_on_unrated_competitor:
  "rank_key (unrated_competitor ''unrated'' 0) = Inr (JStr ''N/A'', JNum 0) \<and>
   rank_key (competitor ''rated'' (9 / 2) 10) = Inr (JNum (9 / 2), JNum 10) \<and>
   tuple_lt (JStr ''N/A'', JNum 0) (JNum (9 / 2), JNum 10) = Inl TypeError \<and>
   rank_competitors [competitor ''rated'' (9 / 2) 10, unrated_competitor ''unrated'' 0] =
     Inl TypeError"
  by code_simp

text \<open>
  C5, as the code has it. When the collection returns, its competitors are the records
  built, in order, from the first occurrence of each identifier among the apps of all
  search results whose identifier is truthy; apps whose identifier is missing,
  \<^verbatim>\<open>null\<close> or zero are skipped. The identifiers of these first occurrences are
  pairwise different and cover every truthy identifier met. (The records themselves
  do not store the identifier.)
\<close>

theorem competitors_are_first_occurrences:
  assumes "collect_competitors net terms = Inr cs"
  shows "map Inr cs =
           map competitor_of
             (first_by track_key (filter (\<lambda>a. track_key a \<noteq> None) (raw_apps net terms))) \<and>
         distinct (map track_key
             (first_by track_key (filter (\<lambda>a. track_key a \<noteq> None) (raw_apps net terms)))) \<and>
         track_key `
             set (first_by track_key (filter (\<lambda>a. track_key a \<noteq> None) (raw_apps net terms))) =
           track_key ` {a \<in> set (raw_apps net terms). track_key a \<noteq> None} \<and>
         (\<forall>a\<in>set (first_by track_key
                     (filter (\<lambda>a. track_key a \<noteq> None) (raw_apps net terms))).
            List.find (\<lambda>b. track_key b = track_key a) (raw_apps net terms) = Some a)"
proof -
  let ?raw = "raw_apps net terms"
  let ?ided = "filter (\<lambda>a. track_key a \<noteq> None) ?raw"
  from assms obtain st where
    st: "collect_terms net terms \<lparr>seen_apps = {}, competitors = []\<rparr> = Inr st"
    and cs: "cs = competitors st"
    by (auto simp: collect_competitors_def split: sum.splits)
  from collect_terms_inv [OF st] cs
  have built: "map Inr cs = map competitor_of (first_by track_key ?ided)"
    by (simp add: fresh_empty)
  have covered: "track_key ` set (first_by track_key ?ided) =
                 track_key ` {a \<in> set ?raw. track_key a \<noteq> None}"
    using keys_first_by [of track_key ?ided] by simp
  have first: "List.find (\<lambda>b. track_key b = track_key a) ?raw = Some a"
    if a: "a \<in> set (first_by track_key ?ided)" for a
  proof -
    have "track_key a \<noteq> None"
      using a set_first_by [of track_key ?ided] by auto
    then have "List.find (\<lambda>b. track_key b = track_key a) ?ided =
               List.find (\<lambda>b. track_key b = track_key a) ?raw"
      by (intro find_filter_implied) auto
    with first_by_is_first [OF a] show ?thesis by simp
  qed
  from built distinct_first_by [of track_key ?ided] covered first show ?thesis
    by blast
qed

theorem competitors_are_first_occurrences_witness:
  "collect_competitors
     (answering [store_app 7 ''First'', store_app 8 ''Other'', store_app 7 ''Again''])
     search_terms =
     Inr [JObj [(''name'', JStr ''First''), (''developer'', JNull),
                (''price'', JStr ''N/A''), (''rating'', JStr ''N/A''),
                (''rating_count'', JNum 0), (''version'', JStr ''N/A''),
                (''description_snippet'', JStr []), (''categories'', JArr [])],
          JObj [(''name'', JStr ''Other''), (''developer'', JNull),
                (''price'', JStr ''N/A''), (''rating'', JStr ''N/A''),
                (''rating_count'', JNum 0), (''version'', JStr ''N/A''),
                (''description_snippet'', JStr []), (''categories'', JArr [])]] \<and>
   distinct (map track_key
     (first_by track_key (filter (\<lambda>a. track_key a \<noteq> None)
        (raw_apps (answering [store_app 7 ''First'', store_app 8 ''Other'',
                              store_app 7 ''Again'']) search_terms))))"
proof -
  have run: "collect_competitors
     (answering [store_app 7 ''First'', store_app 8 ''Other'', store_app 7 ''Again''])
     search_terms =
     Inr [JObj [(''name'', JStr ''First''), (''developer'', JNull),
                (''price'', JStr ''N/A''), (''rating'', JStr ''N/A''),
                (''rating_count'', JNum 0), (''version'', JStr ''N/A''),
                (''description_snippet'', JStr []), (''categories'', JArr [])],
          JObj [(''name'', JStr ''Other''), (''developer'', JNull),
                (''price'', JStr ''N/A''), (''rating'', JStr ''N/A''),
                (''rating_count'', JNum 0), (''version'', JStr ''N/A''),
                (''description_snippet'', JStr []), (''categories'', JArr [])]]"
    by code_simp
  from competitors_are_first_occurrences [OF run] run show ?thesis by blast
qed

text \<open>
  C5 as stated fails for the identifier 0: it is a numeric identifier, and no entry is
  collected for it.
\<close>

theorem identifier_zero_is_skipped:
  "collect_competitors (answering [store_app 0 ''Zero'']) search_terms = Inr []"
  by code_simp

section \<open>Claims about failed requests\<close>

text \<open>
  C9, as the code has it. A request that fails, by a transport error or by a status
  other than 200, yields no data and nothing propagates: \<^verbatim>\<open>search_app_store\<close> returns
  \<^verbatim>\<open>None\<close> and the collector goes on with the next search term as if the term had
  not been asked; \<^verbatim>\<open>get_app_reviews\<close> adds no review for the page. Only a transport
  error prints a line; a status other than 200 prints nothing. In
  \<^verbatim>\<open>get_app_reviews\<close> a transport error also ends the loop over the pages, whereas
  a status other than 200 goes on to the next page.
\<close>

theorem failed_request_gives_no_data:
  "(request_failed (net query) \<longrightarrow>
      search_app_store net query =
        (JNull, if net query = Transport_error then [''App Store search error''] else []) \<and>
      search_reddit net query =
        (JNull, if net query = Transport_error then [''Reddit search error''] else []) \<and>
      collect_terms net (query # terms) st = collect_terms net terms st) \<and>
   (request_failed (dnet app_id) \<longrightarrow>
      get_app_details dnet app_id =
        (JNull, if dnet app_id = Transport_error then [''App details error''] else [])) \<and>
   (request_failed (rnet app_id page) \<longrightarrow>
      fetch_pages rnet app_id (page # pages) all_reviews =
        (if rnet app_id page = Transport_error
         then (all_reviews, [''Error fetching reviews''])
         else fetch_pages rnet app_id pages all_reviews))"
proof (intro conjI impI)
  assume f: "request_failed (net query)"
  then show s: "search_app_store net query =
        (JNull, if net query = Transport_error then [''App Store search error''] else [])"
    by (cases "net query") (simp_all add: request_failed_def search_app_store_def)
  from f show "search_reddit net query =
        (JNull, if net query = Transport_error then [''Reddit search error''] else [])"
    by (cases "net query") (simp_all add: request_failed_def search_reddit_def)
  show "collect_terms net (query # terms) st = collect_terms net terms st"
    by (simp add: s collect_results_def)
next
  assume "request_failed (dnet app_id)"
  then show "get_app_details dnet app_id =
        (JNull, if dnet app_id = Transport_error then [''App details error''] else [])"
    by (cases "dnet app_id") (simp_all add: request_failed_def get_app_details_def)
next
  assume "request_failed (rnet app_id page)"
  then show "fetch_pages rnet app_id (page # pages) all_reviews =
        (if rnet app_id page = Transport_error
         then (all_reviews, [''Error fetching reviews''])
         else fetch_pages rnet app_id pages all_reviews)"
    by (cases "rnet app_id page") (simp_all add: request_failed_def)
qed

theorem failed_request_gives_no_data_witness:
  "request_failed (Response 404 None) \<and>
   search_app_store (\<lambda>q. Response 404 None) ''dual camera recording'' = (JNull, []) \<and>
   collect_terms (\<lambda>q. Response 404 None) [''dual camera recording'']
       \<lparr>seen_apps = {}, competitors = []\<rparr> =
     Inr \<lparr>seen_apps = {}, competitors = []\<rparr> \<and>
   request_failed Transport_error \<and>
   get_app_details (\<lambda>i. Transport_error) (JNum 5) = (JNull, [''App details error'']) \<and>
   fetch_pages (\<lambda>i p. Transport_error) (JNum 5) [1, 2] [JStr ''kept''] =
     ([JStr ''kept''], [''Error fetching reviews''])"
proof -
  have f: "request_failed (Response 404 None)" "request_failed Transport_error"
    by (simp_all add: request_failed_def)
  from failed_request_gives_no_data
         [where net = "\<lambda>q. Response 404 None" and query = "''dual camera recording''"
            and terms = "[]" and st = "\<lparr>seen_apps = {}, competitors = []\<rparr>"
            and dnet = "\<lambda>i. Transport_error" and app_id = "JNum 5"
            and rnet = "\<lambda>i p. Transport_error" and page = 1 and pages = "[2]"
            and all_reviews = "[JStr ''kept'']"] f
  show ?thesis by (simp add: collect_results_def)
qed

text \<open>
  C9 as stated fails: a response with status 404 prints nothing, and a transport error
  on the first page of reviews leaves the second page, which would answer, unasked.
\<close>

theorem non_200_is_not_logged:
  "snd (search_app_store (\<lambda>q. Response 404 None) ''dual camera recording'') = [] \<and>
   snd (get_app_reviews (\<lambda>i p. Response 404 None) (JNum 5) 3) = [] \<and>
   get_app_reviews first_page_down (JNum 5) 2 = ([], [''Error fetching reviews''])"
  by code_simp

section \<open>Claims about the enricher\<close>

lemma set_nested_cases:
  assumes "set_nested d outer inner v = Inr d'"
  obtains kv sub where "d = JObj kv" "map_of kv outer = Some (JObj sub)"
    "d' = JObj (AList.update outer (JObj (AList.update inner v sub)) kv)"
  using assms unfolding set_nested_def py_getitem_def py_setitem_def
  by (auto split: json.splits option.splits sum.splits)

lemma set_nested_obj:
  "set_nested (JObj kv) outer inner v =
     (case map_of kv outer of
        None \<Rightarrow> Inl KeyError
      | Some (JObj sub) \<Rightarrow>
          Inr (JObj (AList.update outer (JObj (AList.update inner v sub)) kv))
      | Some _ \<Rightarrow> Inl TypeError)"
  unfolding set_nested_def py_getitem_def py_setitem_def
  by (auto split: json.splits option.splits)

lemma enrich_cases:
  assumes "enrich net data = Inr out"
  obtains kv mi mx reviews buckets where
    "data = JObj kv"
    "map_of kv ''market_insights'' = Some (JObj mi)"
    "map_of kv ''mixcam'' = Some (JObj mx)"
    "out = JObj
       (AList.update ''mixcam''
          (JObj (AList.update ''review_analysis'' (review_analysis reviews buckets) mx))
          (AList.update ''market_insights''
             (JObj (AList.update ''ui_trends'' research_ui_trends_2025
                (AList.update ''pricing_models'' research_pricing_models
                  (AList.update ''innovative_features'' identify_innovative_features_2025
                    (AList.update ''standard_features'' identify_standard_features_2025 mi)))))
             kv))"
proof -
  from assms obtain reviews buckets d1 d2 d3 d4 where
    s1: "set_nested data ''market_insights'' ''standard_features''
           identify_standard_features_2025 = Inr d1" and
    s2: "set_nested d1 ''market_insights'' ''innovative_features''
           identify_innovative_features_2025 = Inr d2" and
    s3: "set_nested d2 ''market_insights'' ''pricing_models'' research_pricing_models = Inr d3" and
    s4: "set_nested d3 ''market_insights'' ''ui_trends'' research_ui_trends_2025 = Inr d4" and
    s5: "set_nested d4 ''mixcam'' ''review_analysis'' (review_analysis reviews buckets) = Inr out"
    unfolding enrich_def Let_def by (auto split: sum.splits)
  from s1 obtain kv mi where d: "data = JObj kv"
    and mi: "map_of kv ''market_insights'' = Some (JObj mi)"
    and d1: "d1 = JObj (AList.update ''market_insights''
        (JObj (AList.update ''standard_features'' identify_standard_features_2025 mi)) kv)"
    by (rule set_nested_cases)
  from s2 have d2: "d2 = JObj (AList.update ''market_insights''
        (JObj (AList.update ''innovative_features'' identify_innovative_features_2025
          (AList.update ''standard_features'' identify_standard_features_2025 mi))) kv)"
    unfolding d1 by (simp add: set_nested_obj update_conv')
  from s3 have d3: "d3 = JObj (AList.update ''market_insights''
        (JObj (AList.update ''pricing_models'' research_pricing_models
          (AList.update ''innovative_features'' identify_innovative_features_2025
            (AList.update ''standard_features'' identify_standard_features_2025 mi)))) kv)"
    unfolding d2 by (simp add: set_nested_obj update_conv')
  from s4 have d4: "d4 = JObj (AList.update ''market_insights''
        (JObj (AList.update ''ui_trends'' research_ui_trends_2025
          (AList.update ''pricing_models'' research_pricing_models
            (AList.update ''innovative_features'' identify_innovative_features_2025
              (AList.update ''standard_features'' identify_standard_features_2025 mi))))) kv)"
    unfolding d3 by (simp add: set_nested_obj update_conv')
  from s5 obtain mx where mx: "map_of kv ''mixcam'' = Some (JObj mx)"
    and out: "out = JObj
       (AList.update ''mixcam''
          (JObj (AList.update ''review_analysis'' (review_analysis reviews buckets) mx))
          (AList.update ''market_insights''
             (JObj (AList.update ''ui_trends'' research_ui_trends_2025
                (AList.update ''pricing_models'' research_pricing_models
                  (AList.update ''innovative_features'' identify_innovative_features_2025
                    (AList.update ''standard_features'' identify_standard_features_2025 mi)))))
             kv))"
    unfolding d4 by (auto simp: set_nested_obj update_conv' split: option.splits json.splits)
  from d mi mx out show ?thesis by (rule that)
qed

lemma keys_update_present:
  "map_of al k = Some v \<Longrightarrow> map fst (AList.update k v' al) = map fst al"
  by (simp add: update_keys map_of_eq_None_iff [symmetric] image_iff)
     (metis domI dom_map_of_conv_image_fst imageE)

text \<open>
  C10. When the enricher returns, the document it writes has the keys of the loaded
  document in the same order; every top-level field other than \<^verbatim>\<open>market_insights\<close>
  and \<^verbatim>\<open>mixcam\<close> is unchanged; under \<^verbatim>\<open>market_insights\<close> the four taxonomy keys hold
  the four taxonomies and every other key is unchanged; under \<^verbatim>\<open>mixcam\<close> the key
  \<^verbatim>\<open>review_analysis\<close> holds the analysis and every other key is unchanged.
\<close>

theorem enrich_writes_only_taxonomies_and_review_analysis:
  assumes "enrich net data = Inr out"
  shows "\<exists>kv kv' mi mi' mx mx'.
           data = JObj kv \<and> out = JObj kv' \<and> map fst kv' = map fst kv \<and>
           (\<forall>k. k \<noteq> ''market_insights'' \<and> k \<noteq> ''mixcam'' \<longrightarrow> map_of kv' k = map_of kv k) \<and>
           map_of kv ''market_insights'' = Some (JObj mi) \<and>
           map_of kv' ''market_insights'' = Some (JObj mi') \<and>
           (\<forall>k. k \<notin> {''standard_features'', ''innovative_features'', ''pricing_models'',
                     ''ui_trends''} \<longrightarrow> map_of mi' k = map_of mi k) \<and>
           map_of mi' ''standard_features'' = Some identify_standard_features_2025 \<and>
           map_of mi' ''innovative_features'' = Some identify_innovative_features_2025 \<and>
           map_of mi' ''pricing_models'' = Some research_pricing_models \<and>
           map_of mi' ''ui_trends'' = Some research_ui_trends_2025 \<and>
           map_of kv ''mixcam'' = Some (JObj mx) \<and>
           map_of kv' ''mixcam'' = Some (JObj mx') \<and>
           (\<forall>k. k \<noteq> ''review_analysis'' \<longrightarrow> map_of mx' k = map_of mx k) \<and>
           (\<exists>reviews buckets.
              map_of mx' ''review_analysis'' = Some (review_analysis reviews buckets))"
proof -
  from assms obtain kv mi mx reviews buckets where
    d: "data = JObj kv" and
    mi: "map_of kv ''market_insights'' = Some (JObj mi)" and
    mx: "map_of kv ''mixcam'' = Some (JObj mx)" and
    out: "out = JObj
       (AList.update ''mixcam''
          (JObj (AList.update ''review_analysis'' (review_analysis reviews buckets) mx))
          (AList.update ''market_insights''
             (JObj (AList.update ''ui_trends'' research_ui_trends_2025
                (AList.update ''pricing_models'' research_pricing_models
                  (AList.update ''innovative_features'' identify_innovative_features_2025
                    (AList.update ''standard_features'' identify_standard_features_2025 mi)))))
             kv))"
    by (rule enrich_cases)
  let ?mi' = "AList.update ''ui_trends'' research_ui_trends_2025
                (AList.update ''pricing_models'' research_pricing_models
                  (AList.update ''innovative_features'' identify_innovative_features_2025
                    (AList.update ''standard_features'' identify_standard_features_2025 mi)))"
  let ?mx' = "AList.update ''review_analysis'' (review_analysis reviews buckets) mx"
  let ?kv1 = "AList.update ''market_insights'' (JObj ?mi') kv"
  let ?kv' = "AList.update ''mixcam'' (JObj ?mx') ?kv1"
  have k1: "map fst ?kv1 = map fst kv"
    using mi by (rule keys_update_present)
  have "map_of ?kv1 ''mixcam'' = Some (JObj mx)"
    using mx by (simp add: update_conv')
  then have "map fst ?kv' = map fst ?kv1"
    by (rule keys_update_present)
  with k1 have keys: "map fst ?kv' = map fst kv" by simp
  have frame: "\<forall>k. k \<noteq> ''market_insights'' \<and> k \<noteq> ''mixcam'' \<longrightarrow> map_of ?kv' k = map_of kv k"
    by (simp add: update_conv')
  have mi': "map_of ?kv' ''market_insights'' = Some (JObj ?mi')"
    by (simp add: update_conv')
  have mx': "map_of ?kv' ''mixcam'' = Some (JObj ?mx')"
    by (simp add: update_conv')
  have mi_frame: "\<forall>k. k \<notin> {''standard_features'', ''innovative_features'', ''pricing_models'',
                     ''ui_trends''} \<longrightarrow> map_of ?mi' k = map_of mi k"
    by (simp add: update_conv')
  have t: "map_of ?mi' ''standard_features'' = Some identify_standard_features_2025"
    "map_of ?mi' ''innovative_features'' = Some identify_innovative_features_2025"
    "map_of ?mi' ''pricing_models'' = Some research_pricing_models"
    "map_of ?mi' ''ui_trends'' = Some research_ui_trends_2025"
    by (simp_all add: update_conv')
  have mx_frame: "\<forall>k. k \<noteq> ''review_analysis'' \<longrightarrow> map_of ?mx' k = map_of mx k"
    by (simp add: update_conv')
  have ra: "\<exists>reviews buckets.
      map_of ?mx' ''review_analysis'' = Some (review_analysis reviews buckets)"
    by (rule exI [of _ reviews], rule exI [of _ buckets]) (simp add: update_conv')
  show ?thesis
    apply (rule exI [of _ kv], rule exI [of _ ?kv'], rule exI [of _ mi],
        rule exI [of _ ?mi'], rule exI [of _ mx], rule exI [of _ ?mx'])
    using d out keys frame mi mi' mi_frame t mx mx' mx_frame ra by blast
qed

theorem enrich_writes_only_taxonomies_and_review_analysis_witness:
  "enrich (\<lambda>i p. Response 404 None) snapshot =
     Inr (JObj
       [(''research_date'', JStr ''October 24, 2025''),
        (''mixcam'',
           JObj [(''name'', JStr ''MixCam''), (''app_id'', JNum 5),
                 (''review_analysis'',
                    JObj [(''total_reviews_analyzed'', JNum 0), (''complaints'', JArr []),
                          (''feature_requests'', JArr []), (''positive_mentions'', JArr [])])]),
        (''competitors'', JArr [JObj [(''name'', JStr ''Dual Cam''), (''rating'', JNum 4)]]),
        (''market_insights'',
           JObj [(''standard_features'', identify_standard_features_2025),
                 (''innovative_features'', identify_innovative_features_2025),
                 (''user_complaints'', JArr []),
                 (''pricing_models'', research_pricing_models),
                 (''ui_trends'', research_ui_trends_2025)])]) \<and>
   (\<exists>kv. snapshot = JObj kv \<and>
         map_of kv ''research_date'' = Some (JStr ''October 24, 2025''))"
proof -
  have run: "enrich (\<lambda>i p. Response 404 None) snapshot =
     Inr (JObj
       [(''research_date'', JStr ''October 24, 2025''),
        (''mixcam'',
           JObj [(''name'', JStr ''MixCam''), (''app_id'', JNum 5),
                 (''review_analysis'',
                    JObj [(''total_reviews_analyzed'', JNum 0), (''complaints'', JArr []),
                          (''feature_requests'', JArr []), (''positive_mentions'', JArr [])])]),
        (''competitors'', JArr [JObj [(''name'', JStr ''Dual Cam''), (''rating'', JNum 4)]]),
        (''market_insights'',
           JObj [(''standard_features'', identify_standard_features_2025),
                 (''innovative_features'', identify_innovative_features_2025),
                 (''user_complaints'', JArr []),
                 (''pricing_models'', research_pricing_models),
                 (''ui_trends'', research_ui_trends_2025)])])"
    by code_simp
  have "\<exists>kv. snapshot = JObj kv \<and>
         map_of kv ''research_date'' = Some (JStr ''October 24, 2025'')"
    by (simp add: snapshot_def)
  with enrich_writes_only_taxonomies_and_review_analysis [OF run] run show ?thesis
    by blast
qed

end
